theory Spec2Isabelle
  imports Complex_Main
begin

section \<open>Platform strings\<close>

text \<open>
  A JavaScript string is a sequence of UTF-16 code units. The model writes a code unit
  as a \<^typ>\<open>char\<close>, so it covers the code units below 256 (Basic Latin and the
  Latin-1 Supplement); every character that \<^verbatim>\<open>index.tsx\<close> itself names lies
  in that range. The functions below are the built-ins the ingestion code calls, with
  the results ECMAScript gives them on such strings.
\<close>

text \<open>White space and line terminators, as \<^verbatim>\<open>trim\<close> and \<^verbatim>\<open>parseFloat\<close> skip them.\<close>

definition isWhiteSpace :: "char \<Rightarrow> bool" where
  "isWhiteSpace c = (of_char c \<in> {9, 10, 11, 12, 13, 32, 160 :: nat})"

definition trim :: "string \<Rightarrow> string" where
  "trim s = rev (dropWhile isWhiteSpace (rev (dropWhile isWhiteSpace s)))"

text \<open>
  \<^verbatim>\<open>toUpperCase\<close>: a-z and the accented small letters move down by 32. The three
  code units whose upper case leaves the range (181, 223 and 255) stay as they are; their
  images hold no letter of the header caption, so the test of \<^verbatim>\<open>parseGvizData\<close> reads the same.
\<close>

definition toUpperCase_char :: "char \<Rightarrow> char" where
  "toUpperCase_char c =
     (let n = (of_char c :: nat)
      in if (97 \<le> n \<and> n \<le> 122) \<or> (224 \<le> n \<and> n \<le> 254 \<and> n \<noteq> 247)
         then char_of (n - 32) else c)"

definition toUpperCase :: "string \<Rightarrow> string" where
  "toUpperCase s = map toUpperCase_char s"

definition toLowerCase_char :: "char \<Rightarrow> char" where
  "toLowerCase_char c =
     (let n = (of_char c :: nat)
      in if (65 \<le> n \<and> n \<le> 90) \<or> (192 \<le> n \<and> n \<le> 222 \<and> n \<noteq> 215)
         then char_of (n + 32) else c)"

definition toLowerCase :: "string \<Rightarrow> string" where
  "toLowerCase s = map toLowerCase_char s"

fun startsWith :: "string \<Rightarrow> string \<Rightarrow> bool" where
  "startsWith s [] = True"
| "startsWith [] (p # ps) = False"
| "startsWith (c # cs) (p # ps) = (c = p \<and> startsWith cs ps)"

text \<open>\<^verbatim>\<open>s.indexOf(p)\<close>: the first position where \<open>p\<close> starts, or -1.\<close>

fun indexOf_from :: "int \<Rightarrow> string \<Rightarrow> string \<Rightarrow> int" where
  "indexOf_from i [] p = (if p = [] then i else - 1)"
| "indexOf_from i (c # cs) p =
     (if startsWith (c # cs) p then i else indexOf_from (i + 1) cs p)"

definition indexOf :: "string \<Rightarrow> string \<Rightarrow> int" where
  "indexOf s p = indexOf_from 0 s p"

definition includes_str :: "string \<Rightarrow> string \<Rightarrow> bool" where
  "includes_str s p = (indexOf s p \<noteq> - 1)"

text \<open>\<^verbatim>\<open>s.lastIndexOf(ch)\<close> for a one-character pattern: the last position, or -1.\<close>

fun lastIndexOf_from :: "int \<Rightarrow> string \<Rightarrow> char \<Rightarrow> int" where
  "lastIndexOf_from i [] p = - 1"
| "lastIndexOf_from i (c # cs) p =
     (let j = lastIndexOf_from (i + 1) cs p
      in if j \<noteq> - 1 then j else if c = p then i else - 1)"

definition lastIndexOf :: "string \<Rightarrow> char \<Rightarrow> int" where
  "lastIndexOf s p = lastIndexOf_from 0 s p"

text \<open>
  \<^verbatim>\<open>s.substring(a, b)\<close>: both bounds are clamped to \<open>0..length\<close>, and swapped when
  the first is the larger.
\<close>

definition substring :: "string \<Rightarrow> int \<Rightarrow> int \<Rightarrow> string" where
  "substring s a b =
     (let n = int (length s);
          a' = min (max a 0) n;
          b' = min (max b 0) n;
          lo = min a' b';
          hi = max a' b'
      in take (nat (hi - lo)) (drop (nat lo) s))"

text \<open>
  \<^verbatim>\<open>s.split(re)\<close> for a regular expression that matches one separator character:
  the pieces between separators, empty pieces included; the empty string gives one
  empty piece.
\<close>

fun split_on :: "(char \<Rightarrow> bool) \<Rightarrow> string \<Rightarrow> string list" where
  "split_on sep [] = [[]]"
| "split_on sep (c # cs) =
     (if sep c then [] # split_on sep cs
      else (c # hd (split_on sep cs)) # tl (split_on sep cs))"

section \<open>Platform numbers\<close>

text \<open>
  A Number is a double: not-a-number, an infinity, or a finite value, which is a
  rational. Negative zero is \<open>Finite 0\<close>: the code only tests it for truth and floors
  it, and both read it as zero.
\<close>

datatype number = NaN | PosInfinity | NegInfinity | Finite rat

fun bit_length :: "int \<Rightarrow> int" where
  "bit_length n = (if n \<le> 0 then 0 else 1 + bit_length (n div 2))"

declare bit_length.simps [simp del]

definition round_half_even :: "int \<Rightarrow> int \<Rightarrow> int" where
  "round_half_even a b =
     (let q = a div b; r = a mod b
      in if 2 * r < b then q
         else if b < 2 * r then q + 1
         else if even q then q else q + 1)"

text \<open>
  The double nearest to the positive fraction \<open>a / b\<close>, ties to the even significand:
  53 bits of significand above the exponent -1022, fewer below it (subnormals), and
  infinity from \<open>2 ^ 1024\<close> on.
\<close>

definition nearest_double :: "int \<Rightarrow> int \<Rightarrow> number" where
  "nearest_double a b =
     (if a = 0 then Finite 0
      else
        let e0 = bit_length a - bit_length b;
            e = (if (if 0 \<le> e0 then b * 2 ^ nat e0 \<le> a else b \<le> a * 2 ^ nat (- e0))
                 then e0 else e0 - 1);
            p = max e (- 1022) - 52
        in if 0 \<le> p
           then (let m = round_half_even a (b * 2 ^ nat p)
                 in if 2 ^ 1024 \<le> m * 2 ^ nat p then PosInfinity
                    else Finite (of_int (m * 2 ^ nat p)))
           else Finite (of_int (round_half_even (a * 2 ^ nat (- p)) b) / of_int (2 ^ nat (- p))))"

definition isDigit :: "char \<Rightarrow> bool" where
  "isDigit c = (48 \<le> (of_char c :: nat) \<and> (of_char c :: nat) \<le> 57)"

definition digits_value :: "string \<Rightarrow> int" where
  "digits_value ds = foldl (\<lambda>a c. 10 * a + (of_char c - 48)) 0 ds"

definition exponentPart :: "string \<Rightarrow> int" where
  "exponentPart r =
     (case r of
        [] \<Rightarrow> 0
      | c # r' \<Rightarrow>
          if c = CHR ''e'' \<or> c = CHR ''E'' then
            (let neg = (r' \<noteq> [] \<and> hd r' = CHR ''-'');
                 ds = (if r' \<noteq> [] \<and> (hd r' = CHR ''-'' \<or> hd r' = CHR ''+'') then tl r' else r');
                 digs = takeWhile isDigit ds
             in if digs = [] then 0
                else if neg then - digits_value digs else digits_value digs)
          else 0)"

definition decimal_value :: "int \<Rightarrow> int \<Rightarrow> number" where
  "decimal_value m k =
     (if 0 \<le> k then nearest_double (m * 10 ^ nat k) 1
      else nearest_double m (10 ^ nat (- k)))"

text \<open>
  The longest prefix that is an unsigned decimal literal: \<open>Infinity\<close>, or digits with an
  optional fraction and an optional exponent (at least one digit before or after the
  point; an exponent counts only with a digit of its own).
\<close>

definition parseUnsigned :: "string \<Rightarrow> number option" where
  "parseUnsigned u =
     (if startsWith u ''Infinity'' then Some PosInfinity
      else
        let ip = takeWhile isDigit u;
            r1 = dropWhile isDigit u;
            dot = (r1 \<noteq> [] \<and> hd r1 = CHR ''.'');
            fp = (if dot then takeWhile isDigit (tl r1) else []);
            r2 = (if dot then dropWhile isDigit (tl r1) else r1)
        in if ip = [] \<and> fp = [] then None
           else Some (decimal_value (digits_value (ip @ fp))
                        (exponentPart r2 - int (length fp))))"

definition negate :: "number \<Rightarrow> number" where
  "negate x = (case x of NaN \<Rightarrow> NaN | PosInfinity \<Rightarrow> NegInfinity
               | NegInfinity \<Rightarrow> PosInfinity | Finite q \<Rightarrow> Finite (- q))"

text \<open>\<^verbatim>\<open>parseFloat(s)\<close>: leading white space, a sign, then the literal; \<open>NaN\<close> without one.\<close>

definition parseFloat :: "string \<Rightarrow> number" where
  "parseFloat s =
     (let t = dropWhile isWhiteSpace s;
          neg = (t \<noteq> [] \<and> hd t = CHR ''-'');
          u = (if t \<noteq> [] \<and> (hd t = CHR ''-'' \<or> hd t = CHR ''+'') then tl t else t)
      in case parseUnsigned u of
           None \<Rightarrow> NaN
         | Some v \<Rightarrow> if neg then negate v else v)"

text \<open>\<^verbatim>\<open>x || 0\<close> on a Number: \<open>NaN\<close> and zero are falsy.\<close>

definition or_zero :: "number \<Rightarrow> number" where
  "or_zero x = (if x = NaN \<or> x = Finite 0 then Finite 0 else x)"

definition Math_floor :: "number \<Rightarrow> number" where
  "Math_floor x = (case x of Finite q \<Rightarrow> Finite (of_int \<lfloor>q\<rfloor>) | _ \<Rightarrow> x)"

section \<open>Errors\<close>

text \<open>
  A thrown exception is a value with its message. \<open>Error\<close> is \<^verbatim>\<open>new Error(message)\<close>
  of the source; the other three are thrown by the platform, and their messages stand
  for whatever wording the engine gives them.
\<close>

datatype exn = Error string | TypeError string | RangeError string | SyntaxError string

fun message :: "exn \<Rightarrow> string" where
  "message (Error m) = m"
| "message (TypeError m) = m"
| "message (RangeError m) = m"
| "message (SyntaxError m) = m"

text \<open>
  \<^verbatim>\<open>Array(len)\<close> for a Number: the length must be an integer from 0 to \<open>2 ^ 32 - 1\<close>,
  anything else throws a RangeError. This is the bound of the language; an engine may
  fail to allocate or fill an array well below it, which the model does not describe.
\<close>

definition Array_new :: "number \<Rightarrow> exn + nat" where
  "Array_new len =
     (case len of
        Finite q \<Rightarrow>
          if q = of_int \<lfloor>q\<rfloor> \<and> 0 \<le> q \<and> q < 2 ^ 32 then Inr (nat \<lfloor>q\<rfloor>)
          else Inl (RangeError ''Invalid array length'')
      | _ \<Rightarrow> Inl (RangeError ''Invalid array length''))"

section \<open>Types\<close>

text \<open>
  The interfaces \<^verbatim>\<open>StockUnit\<close>, \<^verbatim>\<open>ProductSize\<close> and \<^verbatim>\<open>Product\<close>. The fields
  \<^verbatim>\<open>id\<close> and \<^verbatim>\<open>size\<close> are written \<open>unit_id\<close>, \<open>product_id\<close> and \<open>size_name\<close>.
  \<^verbatim>\<open>Gender\<close> is a string at run time (the parser casts into it), so \<open>gender\<close> is a
  string and \<open>Gender\<close> the set of the three values the type names.
\<close>

datatype UnitStatus = available | sold

record StockUnit =
  unit_id :: string
  status :: UnitStatus

record ProductSize =
  size_name :: string
  units :: "StockUnit list"

record Product =
  product_id :: string
  name :: string
  description :: string
  gender :: string
  imageUrl :: string
  price :: "string option"
  sizes :: "ProductSize list"

definition Gender :: "string set" where
  "Gender = {''ni'' @ [CHR 0xF1] @ ''o'', ''ni'' @ [CHR 0xF1] @ ''a'', ''unisex''}"

section \<open>Identifiers\<close>

text \<open>
  \<^verbatim>\<open>generateId\<close> reads \<^verbatim>\<open>Math.random\<close>. The random source is an explicit state: the
  sequence of identifiers still to come. A call takes the first and leaves the rest.
\<close>

type_synonym rng = "nat \<Rightarrow> string"

definition generateId :: "rng \<Rightarrow> string \<times> rng" where
  "generateId g = (g 0, \<lambda>n. g (Suc n))"

section \<open>The GVIZ parser\<close>

text \<open>
  The decoded payload, by the shapes \<^verbatim>\<open>parseGvizData\<close> tells apart.
  A cell \<^verbatim>\<open>c[idx]\<close> is falsy (\<open>NoCell\<close>: null, undefined or past the end of the
  array), or truthy with \<^verbatim>\<open>v\<close> null (\<open>Cell None\<close>), or truthy with another
  \<^verbatim>\<open>v\<close>, kept as the string \<^verbatim>\<open>String(v)\<close> (\<open>Cell (Some s)\<close>).
  A row is null (\<open>NullRow\<close>), or has a falsy \<^verbatim>\<open>c\<close> (\<open>Row None\<close>), or an array of cells.
  The payload is null (\<open>NullData\<close>), or has no \<^verbatim>\<open>table\<close> or a falsy \<^verbatim>\<open>rows\<close>
  (\<open>NoRows\<close>), or truthy rows that are no array (\<open>BadRows\<close>), or an array of rows.
\<close>

datatype cell = NoCell | Cell "string option"

datatype row = NullRow | Row "cell list option"

datatype gviz = NullData | NoRows | BadRows | Rows "row list"

definition getVal :: "cell list \<Rightarrow> nat \<Rightarrow> string" where
  "getVal c idx =
     (if idx < length c
      then (case c ! idx of NoCell \<Rightarrow> [] | Cell None \<Rightarrow> [] | Cell (Some s) \<Rightarrow> s)
      else [])"

text \<open>\<^verbatim>\<open>String(rawSizes).split(/[,/]/).map(s => s.trim()).filter(s => s)\<close>\<close>

definition sizeList :: "string \<Rightarrow> string list" where
  "sizeList rawSizes =
     filter (\<lambda>s. s \<noteq> [])
       (map trim (split_on (\<lambda>c. c = CHR '','' \<or> c = CHR ''/'') rawSizes))"

text \<open>\<^verbatim>\<open>parseFloat(rawStock) || 0\<close>\<close>

definition stockQty :: "string \<Rightarrow> number" where
  "stockQty rawStock = or_zero (parseFloat rawStock)"

text \<open>\<^verbatim>\<open>Array(n).fill(null).map(() => ({ id: generateId(), status: 'available' }))\<close>\<close>

fun fill_units :: "nat \<Rightarrow> rng \<Rightarrow> StockUnit list \<times> rng" where
  "fill_units 0 g = ([], g)"
| "fill_units (Suc n) g =
     (let (i, g') = generateId g;
          (us, g'') = fill_units n g'
      in (\<lparr>unit_id = i, status = available\<rparr> # us, g''))"

text \<open>The \<^verbatim>\<open>sizeList.map\<close> of the parser: the first throwing callback ends the map.\<close>

fun build_sizes :: "number \<Rightarrow> string list \<Rightarrow> rng \<Rightarrow> exn + ProductSize list \<times> rng" where
  "build_sizes q [] g = Inr ([], g)"
| "build_sizes q (sizeName # rest) g =
     (case Array_new (Math_floor q) of
        Inl e \<Rightarrow> Inl e
      | Inr n \<Rightarrow>
          (let (us, g') = fill_units n g
           in case build_sizes q rest g' of
                Inl e \<Rightarrow> Inl e
              | Inr (bs, g'') \<Rightarrow> Inr (\<lparr>size_name = sizeName, units = us\<rparr> # bs, g'')))"

text \<open>The row is kept: its name is not empty and does not look like the header.\<close>

definition isHeader :: "string \<Rightarrow> bool" where
  "isHeader rawName = (rawName = [] \<or> includes_str (toUpperCase rawName) ''NOMBRE PRODUCTO'')"

text \<open>The callback of \<^verbatim>\<open>rows.map\<close>: \<open>None\<close> is its \<^verbatim>\<open>null\<close>.\<close>

fun parse_row :: "row \<Rightarrow> rng \<Rightarrow> exn + Product option \<times> rng" where
  "parse_row NullRow g = Inl (TypeError ''Cannot read properties of null'')"
| "parse_row (Row None) g = Inr (None, g)"
| "parse_row (Row (Some c)) g =
     (if length c < 2 then Inr (None, g)
      else
        let rawId = getVal c 0;
            rawName = getVal c 1;
            rawDesc = getVal c 2;
            rawGender = getVal c 3;
            rawUrl = getVal c 4;
            rawSizes = getVal c 5;
            rawStock = getVal c 6
        in if isHeader rawName then Inr (None, g)
           else
             (case build_sizes (stockQty rawStock) (sizeList rawSizes) g of
                Inl e \<Rightarrow> Inl e
              | Inr (szs, g') \<Rightarrow>
                  (let (i, g'') = (if rawId \<noteq> [] then (rawId, g') else generateId g')
                   in Inr (Some \<lparr>product_id = i,
                                  name = rawName,
                                  description = rawDesc,
                                  gender = (if toLowerCase rawGender \<noteq> []
                                            then toLowerCase rawGender else ''unisex''),
                                  imageUrl = rawUrl,
                                  price = Some [],
                                  sizes = szs\<rparr>, g''))))"

fun map_rows :: "row list \<Rightarrow> rng \<Rightarrow> exn + Product option list \<times> rng" where
  "map_rows [] g = Inr ([], g)"
| "map_rows (r # rs) g =
     (case parse_row r g of
        Inl e \<Rightarrow> Inl e
      | Inr (p, g') \<Rightarrow>
          (case map_rows rs g' of
             Inl e \<Rightarrow> Inl e
           | Inr (ps, g'') \<Rightarrow> Inr (p # ps, g'')))"

definition parseGvizData :: "gviz \<Rightarrow> rng \<Rightarrow> exn + Product list \<times> rng" where
  "parseGvizData jsonData g =
     (case jsonData of
        NullData \<Rightarrow> Inl (TypeError ''Cannot read properties of null'')
      | NoRows \<Rightarrow> Inr ([], g)
      | BadRows \<Rightarrow> Inl (TypeError ''rows.map is not a function'')
      | Rows rows \<Rightarrow>
          (case map_rows rows g of
             Inl e \<Rightarrow> Inl e
           | Inr (ps, g') \<Rightarrow> Inr (List.map_filter (\<lambda>p. p) ps, g')))"

section \<open>The store\<close>

text \<open>
  The state of the component \<^verbatim>\<open>App\<close> that the ingestion and the stock update read
  and write: \<^verbatim>\<open>products\<close>, \<^verbatim>\<open>loading\<close>, \<^verbatim>\<open>error\<close> and \<^verbatim>\<open>debugData\<close>.
\<close>

record store =
  products :: "Product list"
  loading :: bool
  error :: "string option"
  debugData :: "string option"

definition INITIAL_PRODUCTS :: "Product list" where
  "INITIAL_PRODUCTS =
     [\<lparr>product_id = ''p1'',
       name = ''Cargando inventario...'',
       description = ''Conectando con Google Sheets...'',
       gender = ''unisex'',
       imageUrl = [],
       price = None,
       sizes = []\<rparr>]"

definition initial_store :: store where
  "initial_store = \<lparr>products = INITIAL_PRODUCTS, loading = True, error = None, debugData = None\<rparr>"

subsection \<open>updateProductStock\<close>

text \<open>
  The callback of \<^verbatim>\<open>products.map\<close> in \<^verbatim>\<open>updateProductStock\<close>. Reading
  \<^verbatim>\<open>newSizes[sizeIndex].units\<close> throws a TypeError when the index is outside the array.
\<close>

definition update_product ::
  "string \<Rightarrow> int \<Rightarrow> string \<Rightarrow> UnitStatus \<Rightarrow> Product \<Rightarrow> exn + Product" where
  "update_product productId sizeIndex unitId newStatus p =
     (if product_id p \<noteq> productId then Inr p
      else
        let newSizes = sizes p
        in if 0 \<le> sizeIndex \<and> sizeIndex < int (length newSizes)
           then
             (let newUnits = map (\<lambda>u. if unit_id u = unitId then u\<lparr>status := newStatus\<rparr> else u)
                               (units (newSizes ! nat sizeIndex))
              in Inr (p\<lparr>sizes := newSizes[nat sizeIndex :=
                                      (newSizes ! nat sizeIndex)\<lparr>units := newUnits\<rparr>]\<rparr>))
           else Inl (TypeError ''Cannot read properties of undefined''))"

text \<open>An array \<^verbatim>\<open>map\<close> whose callback may throw: the first exception ends it.\<close>

fun map_throwing :: "('a \<Rightarrow> exn + 'b) \<Rightarrow> 'a list \<Rightarrow> exn + 'b list" where
  "map_throwing f [] = Inr []"
| "map_throwing f (x # xs) =
     (case f x of
        Inl e \<Rightarrow> Inl e
      | Inr y \<Rightarrow> (case map_throwing f xs of Inl e \<Rightarrow> Inl e | Inr ys \<Rightarrow> Inr (y # ys)))"

text \<open>
  \<^verbatim>\<open>setProducts(products.map(...))\<close>: the new snapshot is set when the map returns; an
  exception leaves the store as it was.
\<close>

definition updateProductStock ::
  "store \<Rightarrow> string \<Rightarrow> int \<Rightarrow> string \<Rightarrow> UnitStatus \<Rightarrow> exn + store" where
  "updateProductStock st productId sizeIndex unitId newStatus =
     (case map_throwing (update_product productId sizeIndex unitId newStatus) (products st) of
        Inl e \<Rightarrow> Inl e
      | Inr ps \<Rightarrow> Inr (st\<lparr>products := ps\<rparr>))"

subsection \<open>fetchSheet\<close>

text \<open>
  What \<^verbatim>\<open>fetchSheet\<close> reads from outside the program: the network (\<open>fetch\<close>, by
  the URL requested), the clock (\<open>getTime k\<close> is the text of the \<open>k\<close>-th reading),
  \<^verbatim>\<open>encodeURIComponent\<close>, the decoder (\<open>json_contents\<close> is \<^verbatim>\<open>(await response.json()).contents\<close>,
  \<open>None\<close> when the field is falsy and a string otherwise, a truthy field that is no
  string being outside the model; \<open>JSON_parse\<close> is \<^verbatim>\<open>JSON.parse\<close>) and the random source.
\<close>

record response =
  ok :: bool
  body :: string

record env =
  fetch :: "string \<Rightarrow> exn + response"
  getTime :: "nat \<Rightarrow> string"
  encodeURIComponent :: "string \<Rightarrow> string"
  json_contents :: "string \<Rightarrow> exn + string option"
  JSON_parse :: "string \<Rightarrow> exn + gviz"
  random :: rng

definition SHEET_ID :: string where
  "SHEET_ID = ''1Tf8ob7GSg8AytO-JdOL7HKCQYRaCu56-NrTaYsXkYak''"

definition SHEET_GID :: string where
  "SHEET_GID = ''1156577664''"

definition gvizUrl :: string where
  "gvizUrl = ''https://docs.google.com/spreadsheets/d/'' @ SHEET_ID
             @ ''/gviz/tq?tqx=out:json&gid='' @ SHEET_GID"

definition noCacheUrl :: "env \<Rightarrow> nat \<Rightarrow> string" where
  "noCacheUrl ev k = gvizUrl @ ''&_='' @ getTime ev k"

definition primaryUrl :: "env \<Rightarrow> string" where
  "primaryUrl ev = ''https://api.allorigins.win/get?url='' @ encodeURIComponent ev (noCacheUrl ev 0)"

definition backupUrl :: "env \<Rightarrow> string" where
  "backupUrl ev = ''https://corsproxy.io/?'' @ encodeURIComponent ev (noCacheUrl ev 1)"

text \<open>The body of the first \<^verbatim>\<open>try\<close>: strategy AllOrigins.\<close>

definition primary :: "env \<Rightarrow> exn + string" where
  "primary ev =
     (case fetch ev (primaryUrl ev) of
        Inl e \<Rightarrow> Inl e
      | Inr r \<Rightarrow>
          if \<not> ok r then Inl (Error ''AllOrigins Error'')
          else (case json_contents ev (body r) of
                  Inl e \<Rightarrow> Inl e
                | Inr None \<Rightarrow> Inl (Error ''No content'')
                | Inr (Some contents) \<Rightarrow> Inr contents))"

text \<open>The body of the second \<^verbatim>\<open>try\<close>: strategy CorsProxy.\<close>

definition backup :: "env \<Rightarrow> exn + string" where
  "backup ev =
     (case fetch ev (backupUrl ev) of
        Inl e \<Rightarrow> Inl e
      | Inr r \<Rightarrow> if \<not> ok r then Inl (Error ''CorsProxy Error'') else Inr (body r))"

definition connect_message :: string where
  "connect_message =
     ''No se pudo conectar. Verifica que la hoja est'' @ [CHR 0xE9]
     @ '' compartida como '' @ [CHR 0x27] @ ''Cualquiera con el enlace puede ver''
     @ [CHR 0x27] @ ''.''"

text \<open>
  The retrieval (lines 137 to 166): the URLs requested, in order, and the text
  obtained or the exception thrown.
\<close>

definition retrieve :: "env \<Rightarrow> string list \<times> (exn + string)" where
  "retrieve ev =
     (case primary ev of
        Inr jsonText \<Rightarrow> ([primaryUrl ev], Inr jsonText)
      | Inl err1 \<Rightarrow>
          (case backup ev of
             Inr jsonText \<Rightarrow> ([primaryUrl ev, backupUrl ev], Inr jsonText)
           | Inl err2 \<Rightarrow> ([primaryUrl ev, backupUrl ev], Inl (Error connect_message))))"

definition marker :: string where
  "marker = ''google.visualization.Query.setResponse(''"

definition unexpected_message :: string where
  "unexpected_message = ''Respuesta inesperada de Google. Verifica permisos de la hoja.''"

definition no_rows_message :: string where
  "no_rows_message =
     ''Conexi'' @ [CHR 0xF3] @ ''n exitosa a la pesta'' @ [CHR 0xF1] @ ''a ''
     @ [CHR 0x27] @ ''Inventario'' @ [CHR 0x27]
     @ '', pero no se encontraron filas de productos. ''
     @ ''Revisa que haya datos debajo de los encabezados.''"

definition connection_prefix :: string where
  "connection_prefix = ''Error de conexi'' @ [CHR 0xF3] @ ''n. ''"

text \<open>\<^verbatim>\<open>jsonText.substring(jsonStart + 39, jsonText.lastIndexOf(")"))\<close>\<close>

definition cleanJson :: "string \<Rightarrow> int \<Rightarrow> string" where
  "cleanJson jsonText jsonStart =
     substring jsonText (jsonStart + 39) (lastIndexOf jsonText (CHR 0x29))"

text \<open>
  Lines 177 to 185, after \<^verbatim>\<open>JSON.parse\<close> returned: the store after them and
  the exception thrown, if any.
\<close>

definition use_parsed :: "env \<Rightarrow> store \<Rightarrow> gviz \<Rightarrow> store \<times> exn option" where
  "use_parsed ev st parsed =
     (case parseGvizData parsed (random ev) of
        Inl e \<Rightarrow> (st, Some e)
      | Inr (sheetProducts, g) \<Rightarrow>
          if length sheetProducts > 0
          then (st\<lparr>products := sheetProducts, error := None\<rparr>, None)
          else (st\<lparr>error := Some no_rows_message\<rparr>, None))"

text \<open>Lines 168 to 188: the preview, the envelope and the decoded payload.\<close>

definition unwrap :: "env \<Rightarrow> store \<Rightarrow> string \<Rightarrow> store \<times> exn option" where
  "unwrap ev st jsonText =
     (let st1 = st\<lparr>debugData := Some (substring jsonText 0 500 @ ''...'')\<rparr>;
          jsonStart = indexOf jsonText marker
      in if jsonStart \<noteq> - 1
         then (case JSON_parse ev (cleanJson jsonText jsonStart) of
                 Inl e \<Rightarrow> (st1, Some e)
               | Inr parsed \<Rightarrow> use_parsed ev st1 parsed)
         else (st1\<lparr>error := Some unexpected_message\<rparr>, None))"

text \<open>The body of the outer \<^verbatim>\<open>try\<close>.\<close>

definition try_body :: "env \<Rightarrow> store \<Rightarrow> store \<times> exn option" where
  "try_body ev st =
     (let st0 = st\<lparr>loading := True, error := None\<rparr>
      in case snd (retrieve ev) of
           Inl e \<Rightarrow> (st0, Some e)
         | Inr jsonText \<Rightarrow> unwrap ev st0 jsonText)"

text \<open>\<^verbatim>\<open>fetchSheet\<close>, with its \<^verbatim>\<open>catch\<close> and \<^verbatim>\<open>finally\<close>: the store it leaves.\<close>

definition fetchSheet :: "env \<Rightarrow> store \<Rightarrow> store" where
  "fetchSheet ev st =
     (let (st1, thrown) = try_body ev st;
          st2 = (case thrown of
                   None \<Rightarrow> st1
                 | Some err \<Rightarrow> st1\<lparr>error := Some (connection_prefix @ message err)\<rparr>)
      in st2\<lparr>loading := False\<rparr>)"

section \<open>Vocabulary of the statements\<close>

text \<open>
  The rows the specification excludes, in its words: a row with fewer than two raw cells,
  a row whose name field is empty, a row whose upper-cased name contains the header
  caption. A row without cells has fewer than two of them.
\<close>

definition spec_excluded :: "row \<Rightarrow> bool" where
  "spec_excluded r =
     (case r of
        NullRow \<Rightarrow> True
      | Row None \<Rightarrow> True
      | Row (Some c) \<Rightarrow>
          length c < 2 \<or> getVal c 1 = []
          \<or> includes_str (toUpperCase (getVal c 1)) ''NOMBRE PRODUCTO'')"

text \<open>
  The name, description and image fields a row projects to.
\<close>

definition row_fields :: "row \<Rightarrow> string \<times> string \<times> string" where
  "row_fields r = (case r of Row (Some c) \<Rightarrow> (getVal c 1, getVal c 2, getVal c 4) | _ \<Rightarrow> ([], [], []))"

text \<open>
  The rows on which the callback of \<^verbatim>\<open>rows.map\<close> returns: every row but a null one
  and a kept one that has a size label and a quantity that is no array length.
\<close>

definition row_builds :: "row \<Rightarrow> bool" where
  "row_builds r =
     (case r of
        NullRow \<Rightarrow> False
      | Row None \<Rightarrow> True
      | Row (Some c) \<Rightarrow>
          spec_excluded r \<or> sizeList (getVal c 5) = []
          \<or> (case Array_new (Math_floor (stockQty (getVal c 6))) of
                Inr n \<Rightarrow> True | Inl e \<Rightarrow> False))"

text \<open>
  Positions in a snapshot: product \<open>k\<close>, bucket \<open>j\<close>, unit \<open>m\<close>.
\<close>

definition is_position :: "store \<Rightarrow> nat \<Rightarrow> nat \<Rightarrow> nat \<Rightarrow> bool" where
  "is_position st k j m =
     (k < length (products st) \<and> j < length (sizes (products st ! k))
      \<and> m < length (units (sizes (products st ! k) ! j)))"

definition unit_at :: "store \<Rightarrow> nat \<Rightarrow> nat \<Rightarrow> nat \<Rightarrow> StockUnit" where
  "unit_at st k j m = units (sizes (products st ! k) ! j) ! m"

text \<open>
  The payload in the words of the specification: the characters from the fixed offset
  after the marker up to the last closing parenthesis of the text.
\<close>

definition spec_payload :: "string \<Rightarrow> string" where
  "spec_payload jsonText =
     (let offset = nat (indexOf jsonText marker + 39);
          close = nat (lastIndexOf jsonText (CHR 0x29))
      in take (close - offset) (drop offset jsonText))"

section \<open>Sample inputs\<close>

text \<open>
  A random source whose identifiers are pairwise distinct.
\<close>

definition sample_ids :: rng where
  "sample_ids = (\<lambda>k. CHR ''u'' # replicate k (CHR ''x''))"

definition shirt_cells :: "cell list" where
  "shirt_cells =
     [Cell (Some ''7''), Cell (Some ''Camisa''), NoCell, Cell None, NoCell,
      Cell (Some ''S, M/L''), Cell (Some ''3.7'')]"

definition sample_rows :: "row list" where
  "sample_rows =
     [Row (Some [Cell (Some ''ID''), Cell (Some ''Nombre Producto''), Cell (Some ''Descripcion'')]),
      Row (Some [Cell (Some ''1'')]),
      Row (Some [Cell (Some ''7''), Cell (Some ''Camisa''), Cell (Some ''de lino''), NoCell,
                 Cell (Some ''http://x/c.png''), Cell (Some ''S, M/L''), Cell (Some ''3.7'')]),
      Row None,
      Row (Some [Cell (Some ''8''), Cell None, Cell (Some ''sin nombre'')]),
      Row (Some [NoCell, Cell (Some ''Gorro''), NoCell, Cell (Some ''Adulto''), NoCell,
                 Cell (Some ''U''), Cell (Some ''x'')])]"

definition negative_shirt_cells :: "cell list" where
  "negative_shirt_cells =
     [Cell (Some ''7''), Cell (Some ''Camisa''), NoCell, Cell None, NoCell,
      Cell (Some ''S, M/L''), Cell (Some ''-3.7'')]"

definition negative_stock_row :: row where
  "negative_stock_row =
     Row (Some [Cell (Some ''7''), Cell (Some ''Camisa''), NoCell, NoCell, NoCell,
                Cell (Some ''S''), Cell (Some ''-1'')])"

definition adult_row :: row where
  "adult_row =
     Row (Some [Cell (Some ''9''), Cell (Some ''Gorro''), NoCell, Cell (Some ''Adulto''), NoCell,
                Cell (Some ''U''), Cell (Some ''2'')])"

definition adult_product :: Product where
  "adult_product =
     \<lparr>product_id = ''9'', name = ''Gorro'', description = [], gender = ''adulto'',
      imageUrl = [], price = Some [],
      sizes = [\<lparr>size_name = ''U'',
                units = [\<lparr>unit_id = ''u'', status = available\<rparr>,
                         \<lparr>unit_id = ''ux'', status = available\<rparr>]\<rparr>]\<rparr>"

definition sample_store :: store where
  "sample_store =
     \<lparr>products =
        [\<lparr>product_id = ''a'', name = ''Camisa'', description = [], gender = ''unisex'',
          imageUrl = [], price = Some [],
          sizes = [\<lparr>size_name = ''S'',
                    units = [\<lparr>unit_id = ''u1'', status = available\<rparr>,
                             \<lparr>unit_id = ''u2'', status = sold\<rparr>]\<rparr>,
                   \<lparr>size_name = ''M'',
                    units = [\<lparr>unit_id = ''u3'', status = available\<rparr>]\<rparr>]\<rparr>,
         \<lparr>product_id = ''b'', name = ''Gorro'', description = [], gender = ''unisex'',
          imageUrl = [], price = Some [],
          sizes = [\<lparr>size_name = ''U'',
                    units = [\<lparr>unit_id = ''u4'', status = available\<rparr>]\<rparr>]\<rparr>],
      loading = False, error = None, debugData = None\<rparr>"

definition toggled_store :: store where
  "toggled_store =
     \<lparr>products =
        [\<lparr>product_id = ''a'', name = ''Camisa'', description = [], gender = ''unisex'',
          imageUrl = [], price = Some [],
          sizes = [\<lparr>size_name = ''S'',
                    units = [\<lparr>unit_id = ''u1'', status = sold\<rparr>,
                             \<lparr>unit_id = ''u2'', status = sold\<rparr>]\<rparr>,
                   \<lparr>size_name = ''M'',
                    units = [\<lparr>unit_id = ''u3'', status = available\<rparr>]\<rparr>]\<rparr>,
         \<lparr>product_id = ''b'', name = ''Gorro'', description = [], gender = ''unisex'',
          imageUrl = [], price = Some [],
          sizes = [\<lparr>size_name = ''U'',
                    units = [\<lparr>unit_id = ''u4'', status = available\<rparr>]\<rparr>]\<rparr>],
      loading = False, error = None, debugData = None\<rparr>"

definition sample_text :: string where
  "sample_text = ''/*O_o*/ '' @ marker @ ''{}'' @ '');''"

text \<open>
  The first relay answers with a failure status, the second answers the request for the
  feed URL with the envelope and any other request with a failure status; the decoder
  maps the payload text to the given value.
\<close>

definition backup_env :: "gviz \<Rightarrow> env" where
  "backup_env payload =
     \<lparr>fetch = (\<lambda>url. if url = ''https://corsproxy.io/?'' @ gvizUrl @ ''&_=1700000000250''
                        then Inr \<lparr>ok = True, body = sample_text\<rparr>
                        else Inr \<lparr>ok = False, body = []\<rparr>),
      getTime = (\<lambda>k. if k = 0 then ''1700000000000'' else ''1700000000250''),
      encodeURIComponent = (\<lambda>s. s),
      json_contents = (\<lambda>b. Inr None),
      JSON_parse = (\<lambda>s. if s = ''{}'' then Inr payload else Inl (SyntaxError ''Unexpected token'')),
      random = sample_ids\<rparr>"

text \<open>
  No relay can be reached.
\<close>

definition offline_env :: env where
  "offline_env =
     \<lparr>fetch = (\<lambda>url. Inl (TypeError ''Failed to fetch'')),
      getTime = (\<lambda>k. if k = 0 then ''1700000000000'' else ''1700000000250''),
      encodeURIComponent = (\<lambda>s. s),
      json_contents = (\<lambda>b. Inr None),
      JSON_parse = (\<lambda>s. Inl (SyntaxError ''Unexpected token'')),
      random = sample_ids\<rparr>"

text \<open>
  The first relay answers the request for the feed URL with the envelope in its payload
  field; no other request is answered.
\<close>

definition primary_env :: env where
  "primary_env =
     \<lparr>fetch = (\<lambda>url. if url = ''https://api.allorigins.win/get?url='' @ gvizUrl
                                    @ ''&_=1700000000000''
                        then Inr \<lparr>ok = True, body = ''{contents}''\<rparr>
                        else Inl (TypeError ''Failed to fetch'')),
      getTime = (\<lambda>k. if k = 0 then ''1700000000000'' else ''1700000000250''),
      encodeURIComponent = (\<lambda>s. s),
      json_contents = (\<lambda>b. if b = ''{contents}'' then Inr (Some sample_text) else Inr None),
      JSON_parse = (\<lambda>s. if s = ''{}'' then Inr NoRows else Inl (SyntaxError ''Unexpected token'')),
      random = sample_ids\<rparr>"

section \<open>Building sizes and units\<close>

lemma fill_units_length: "length (fst (fill_units n g)) = n"
  by (induction n arbitrary: g) (simp_all add: generateId_def case_prod_beta)

lemma fill_units_available: "u \<in> set (fst (fill_units n g)) \<Longrightarrow> status u = available"
  by (induction n arbitrary: g) (auto simp: generateId_def case_prod_beta)

lemma build_sizes_ok:
  assumes "Array_new (Math_floor q) = Inr n"
  shows "\<exists>bs g'. build_sizes q ls g = Inr (bs, g')
           \<and> map size_name bs = ls
           \<and> (\<forall>b\<in>set bs. length (units b) = n \<and> (\<forall>u\<in>set (units b). status u = available))"
proof (induction ls arbitrary: g)
  case Nil
  show ?case by simp
next
  case (Cons l ls)
  obtain us g1 where f: "fill_units n g = (us, g1)" by (cases "fill_units n g")
  from Cons.IH[of g1] obtain bs g2 where
    b: "build_sizes q ls g1 = Inr (bs, g2)" "map size_name bs = ls"
       "\<forall>b\<in>set bs. length (units b) = n \<and> (\<forall>u\<in>set (units b). status u = available)"
    by blast
  have len: "length us = n" using fill_units_length[of n g] f by simp
  have av: "\<forall>u\<in>set us. status u = available" using fill_units_available[of _ n g] f by simp
  show ?case using assms f b len av by simp
qed

lemma build_sizes_throws:
  "Array_new (Math_floor q) = Inl e \<Longrightarrow> ls \<noteq> [] \<Longrightarrow> build_sizes q ls g = Inl e"
  by (cases ls) simp_all

lemma parse_row_kept:
  assumes "2 \<le> length c" "\<not> isHeader (getVal c 1)"
    and "build_sizes (stockQty (getVal c 6)) (sizeList (getVal c 5)) g = Inr (bs, g')"
  shows "\<exists>i g''. parse_row (Row (Some c)) g =
           Inr (Some \<lparr>product_id = i, name = getVal c 1, description = getVal c 2,
                      gender = (if toLowerCase (getVal c 3) \<noteq> [] then toLowerCase (getVal c 3)
                                else ''unisex''),
                      imageUrl = getVal c 4, price = Some [], sizes = bs\<rparr>, g'')
           \<and> (getVal c 0 \<noteq> [] \<longrightarrow> i = getVal c 0 \<and> g'' = g')
           \<and> (getVal c 0 = [] \<longrightarrow> (i, g'') = generateId g')"
  using assms by (simp add: Let_def split: prod.splits)

lemma sizeList_example: "sizeList ''S, M/L'' = [''S'', ''M'', ''L'']"
  by code_simp

lemma units_example: "Array_new (Math_floor (stockQty ''3.7'')) = Inr 3"
  by code_simp

lemma map_const_replicate:
  "length xs = n \<Longrightarrow> \<forall>x\<in>set xs. f x = y \<Longrightarrow> map f xs = replicate n y"
  by (induction xs arbitrary: n) auto

text \<open>
  The size and unit derivation where the code delivers it. A row that is kept (at least
  two cells, a name that is no header) and whose floored quantity \<open>n\<close> is an array length
  the language accepts (an integer from 0 to \<open>2 ^ 32 - 1\<close>) yields a product whose buckets
  are, in order, the pieces of the size field split on comma or slash, trimmed, the empty
  ones dropped and repeated labels kept; every bucket has \<open>n\<close> units, all available.
  In particular the size field \<open>S, M/L\<close> with the quantity \<open>3.7\<close> gives the three buckets
  S, M and L with three available units each.
\<close>

lemma size_buckets_of_kept_row:
  assumes "2 \<le> length c" and "\<not> isHeader (getVal c 1)"
  shows "(\<forall>n. Array_new (Math_floor (stockQty (getVal c 6))) = Inr n \<longrightarrow>
            (\<exists>p g'. parse_row (Row (Some c)) g = Inr (Some p, g') \<and>
               map size_name (sizes p) =
                 filter (\<lambda>s. s \<noteq> [])
                   (map trim (split_on (\<lambda>x. x = CHR '','' \<or> x = CHR ''/'') (getVal c 5))) \<and>
               (\<forall>b\<in>set (sizes p).
                   length (units b) = n \<and> (\<forall>u\<in>set (units b). status u = available))))
       \<and> (getVal c 5 = ''S, M/L'' \<and> getVal c 6 = ''3.7'' \<longrightarrow>
            (\<exists>p g'. parse_row (Row (Some c)) g = Inr (Some p, g') \<and>
               map size_name (sizes p) = [''S'', ''M'', ''L''] \<and>
               map (\<lambda>b. map status (units b)) (sizes p) = replicate 3 (replicate 3 available)))"
proof -
  have general: "\<exists>p g'. parse_row (Row (Some c)) g = Inr (Some p, g') \<and>
               map size_name (sizes p) = sizeList (getVal c 5) \<and>
               (\<forall>b\<in>set (sizes p).
                   length (units b) = n \<and> (\<forall>u\<in>set (units b). status u = available))"
    if n: "Array_new (Math_floor (stockQty (getVal c 6))) = Inr n" for n
  proof -
    from build_sizes_ok[OF n, of "sizeList (getVal c 5)" g] obtain bs g1 where
      b: "build_sizes (stockQty (getVal c 6)) (sizeList (getVal c 5)) g = Inr (bs, g1)"
         "map size_name bs = sizeList (getVal c 5)"
         "\<forall>b\<in>set bs. length (units b) = n \<and> (\<forall>u\<in>set (units b). status u = available)"
      by blast
    from parse_row_kept[OF assms b(1)] obtain i g2 where
      "parse_row (Row (Some c)) g =
         Inr (Some \<lparr>product_id = i, name = getVal c 1, description = getVal c 2,
                    gender = (if toLowerCase (getVal c 3) \<noteq> [] then toLowerCase (getVal c 3)
                              else ''unisex''),
                    imageUrl = getVal c 4, price = Some [], sizes = bs\<rparr>, g2)"
      by blast
    with b(2,3) show ?thesis by simp
  qed
  have particular: "\<exists>p g'. parse_row (Row (Some c)) g = Inr (Some p, g') \<and>
               map size_name (sizes p) = [''S'', ''M'', ''L''] \<and>
               map (\<lambda>b. map status (units b)) (sizes p) = replicate 3 (replicate 3 available)"
    if f5: "getVal c 5 = ''S, M/L''" and f6: "getVal c 6 = ''3.7''"
  proof -
    have "Array_new (Math_floor (stockQty (getVal c 6))) = Inr 3"
      unfolding f6 by (rule units_example)
    from general[OF this] obtain p g' where
      p1: "parse_row (Row (Some c)) g = Inr (Some p, g')" and
      p2: "map size_name (sizes p) = sizeList (getVal c 5)" and
      p3: "\<forall>b\<in>set (sizes p). length (units b) = 3 \<and> (\<forall>u\<in>set (units b). status u = available)"
      by blast
    have labels: "map size_name (sizes p) = [''S'', ''M'', ''L'']"
      unfolding p2 f5 by (rule sizeList_example)
    have "length (map size_name (sizes p)) = 3"
      unfolding labels by simp
    then have len: "length (sizes p) = 3" by simp
    have "\<forall>b\<in>set (sizes p). map status (units b) = replicate 3 available"
      using p3 by (simp add: map_const_replicate)
    with len have "map (\<lambda>b. map status (units b)) (sizes p) = replicate 3 (replicate 3 available)"
      by (rule map_const_replicate)
    with p1 labels show ?thesis by (intro exI conjI)
  qed
  show ?thesis
  proof (intro conjI allI impI)
    fix n
    assume "Array_new (Math_floor (stockQty (getVal c 6))) = Inr n"
    from general[OF this, unfolded sizeList_def]
    show "\<exists>p g'. parse_row (Row (Some c)) g = Inr (Some p, g') \<and>
               map size_name (sizes p) =
                 filter (\<lambda>s. s \<noteq> [])
                   (map trim (split_on (\<lambda>x. x = CHR '','' \<or> x = CHR ''/'') (getVal c 5))) \<and>
               (\<forall>b\<in>set (sizes p).
                   length (units b) = n \<and> (\<forall>u\<in>set (units b). status u = available))" .
  next
    assume "getVal c 5 = ''S, M/L'' \<and> getVal c 6 = ''3.7''"
    then show "\<exists>p g'. parse_row (Row (Some c)) g = Inr (Some p, g') \<and>
               map size_name (sizes p) = [''S'', ''M'', ''L''] \<and>
               map (\<lambda>b. map status (units b)) (sizes p) = replicate 3 (replicate 3 available)"
      using particular by (elim conjE)
  qed
qed

lemma size_buckets_of_shirt_row:
  "2 \<le> length shirt_cells
   \<and> \<not> isHeader (getVal shirt_cells 1)
   \<and> Array_new (Math_floor (stockQty (getVal shirt_cells 6))) = Inr 3
   \<and> (\<exists>p g'. parse_row (Row (Some shirt_cells)) sample_ids = Inr (Some p, g') \<and>
          map size_name (sizes p) =
            filter (\<lambda>s. s \<noteq> [])
              (map trim (split_on (\<lambda>x. x = CHR '','' \<or> x = CHR ''/'') (getVal shirt_cells 5))) \<and>
          (\<forall>b\<in>set (sizes p).
              length (units b) = 3 \<and> (\<forall>u\<in>set (units b). status u = available)))
   \<and> (\<exists>p g'. parse_row (Row (Some shirt_cells)) sample_ids = Inr (Some p, g') \<and>
          map size_name (sizes p) = [''S'', ''M'', ''L''] \<and>
          map (\<lambda>b. map status (units b)) (sizes p) = replicate 3 (replicate 3 available))"
proof -
  have h1: "2 \<le> length shirt_cells" by code_simp
  have h2: "\<not> isHeader (getVal shirt_cells 1)" by code_simp
  have h3: "getVal shirt_cells 5 = ''S, M/L'' \<and> getVal shirt_cells 6 = ''3.7''" by code_simp
  have h4: "Array_new (Math_floor (stockQty (getVal shirt_cells 6))) = Inr 3" by code_simp
  note t = size_buckets_of_kept_row[OF h1 h2, of sample_ids]
  show ?thesis
    by (rule conjI[OF h1 conjI[OF h2 conjI[OF h4
          conjI[OF t[THEN conjunct1, THEN spec, THEN mp, OF h4]
                   t[THEN conjunct2, THEN mp, OF h3]]]]])
qed

section \<open>Rows kept and rows dropped\<close>

lemma parse_row_throws:
  assumes "2 \<le> length c" "\<not> isHeader (getVal c 1)"
    and "build_sizes (stockQty (getVal c 6)) (sizeList (getVal c 5)) g = Inl e"
  shows "parse_row (Row (Some c)) g = Inl e"
  using assms by (simp add: Let_def)

lemma parse_row_excluded:
  "spec_excluded r \<Longrightarrow> parse_row r g = Inr (op, g') \<Longrightarrow> op = None"
  by (cases "(r, g)" rule: parse_row.cases)
     (auto simp: spec_excluded_def isHeader_def Let_def split: if_splits)

lemma parse_row_survivor:
  assumes "\<not> spec_excluded r" "parse_row r g = Inr (op, g')"
  shows "\<exists>p. op = Some p \<and> (name p, description p, imageUrl p) = row_fields r"
proof -
  from assms(1) obtain c where r: "r = Row (Some c)" and len: "2 \<le> length c"
    and nh: "\<not> isHeader (getVal c 1)"
    by (cases r; simp add: spec_excluded_def isHeader_def split: option.splits) 
  show ?thesis
  proof (cases "build_sizes (stockQty (getVal c 6)) (sizeList (getVal c 5)) g")
    case (Inl e)
    from parse_row_throws[OF len nh Inl] assms(2) r show ?thesis by simp
  next
    case (Inr b)
    obtain bs g1 where "b = (bs, g1)" by (cases b)
    with Inr parse_row_kept[OF len nh, of g bs g1] assms(2) r
    show ?thesis by (auto simp: row_fields_def)
  qed
qed

lemma map_rows_result:
  "map_rows rows g = Inr (ops, g') \<Longrightarrow>
     map (\<lambda>p. (name p, description p, imageUrl p)) (List.map_filter (\<lambda>p. p) ops)
       = map row_fields (filter (\<lambda>r. \<not> spec_excluded r) rows)"
proof (induction rows arbitrary: g ops)
  case Nil
  then show ?case by (simp add: List.map_filter_simps)
next
  case (Cons r rows)
  from Cons.prems obtain op g1 ops' where
    a: "parse_row r g = Inr (op, g1)" and b: "map_rows rows g1 = Inr (ops', g')"
    and c: "ops = op # ops'"
    by (auto split: sum.splits prod.splits)
  note ih = Cons.IH[OF b]
  show ?case
  proof (cases "spec_excluded r")
    case True
    with parse_row_excluded[OF True a] ih c show ?thesis
      by (simp add: List.map_filter_simps)
  next
    case False
    from parse_row_survivor[OF False a] obtain p where
      "op = Some p" "(name p, description p, imageUrl p) = row_fields r" by blast
    with False ih c show ?thesis by (simp add: List.map_filter_simps)
  qed
qed

lemma parse_row_returns:
  assumes "row_builds r"
  shows "\<exists>op g'. parse_row r g = Inr (op, g')"
proof (cases r)
  case NullRow
  with assms show ?thesis by (simp add: row_builds_def)
next
  case (Row oc)
  show ?thesis
  proof (cases oc)
    case None
    with Row show ?thesis by simp
  next
    case (Some c)
    show ?thesis
    proof (cases "spec_excluded r")
      case True
      with Row Some show ?thesis
        by (auto simp: spec_excluded_def isHeader_def Let_def)
    next
      case False
      then have len: "2 \<le> length c" and nh: "\<not> isHeader (getVal c 1)"
        using Row Some by (auto simp: spec_excluded_def isHeader_def)
      have "\<exists>bs g1. build_sizes (stockQty (getVal c 6)) (sizeList (getVal c 5)) g = Inr (bs, g1)"
      proof (cases "sizeList (getVal c 5) = []")
        case True
        then show ?thesis by simp
      next
        case ne: False
        with assms False Row Some obtain n where
          "Array_new (Math_floor (stockQty (getVal c 6))) = Inr n"
          by (auto simp: row_builds_def split: sum.splits)
        from build_sizes_ok[OF this] show ?thesis by blast
      qed
      then obtain bs g1 where
        "build_sizes (stockQty (getVal c 6)) (sizeList (getVal c 5)) g = Inr (bs, g1)" by blast
      from parse_row_kept[OF len nh this] Row Some show ?thesis by blast
    qed
  qed
qed

lemma map_rows_returns:
  "\<forall>r\<in>set rows. row_builds r \<Longrightarrow> \<exists>ops g'. map_rows rows g = Inr (ops, g')"
proof (induction rows arbitrary: g)
  case Nil
  show ?case by simp
next
  case (Cons r rows)
  from Cons.prems parse_row_returns[of r g] obtain op g1 where
    a: "parse_row r g = Inr (op, g1)" by auto
  from Cons.prems Cons.IH[of g1] obtain ops g2 where
    b: "map_rows rows g1 = Inr (ops, g2)" by auto
  from a b show ?case by simp
qed

text \<open>
  Claim C8. When the builder returns, its products are, in order, the rows that are not
  excluded: a row with fewer than two cells, with an empty name or with a name whose
  upper case contains the header caption gives no product, and the products that remain
  carry the name, description and image fields of the remaining rows in source order.
  The builder returns whenever every row is one on which the row callback returns.
\<close>

theorem C8_exclusions_and_order:
  "(parseGvizData (Rows rows) g = Inr (ps, g') \<longrightarrow>
      map (\<lambda>p. (name p, description p, imageUrl p)) ps
        = map row_fields (filter (\<lambda>r. \<not> spec_excluded r) rows))
   \<and> ((\<forall>r\<in>set rows. row_builds r) \<longrightarrow>
        (\<exists>qs h. parseGvizData (Rows rows) g = Inr (qs, h)))"
proof (intro conjI impI)
  assume "parseGvizData (Rows rows) g = Inr (ps, g')"
  then obtain ops where "map_rows rows g = Inr (ops, g')" and "ps = List.map_filter (\<lambda>p. p) ops"
    by (auto simp: parseGvizData_def split: sum.splits)
  with map_rows_result[of rows g ops g']
  show "map (\<lambda>p. (name p, description p, imageUrl p)) ps
        = map row_fields (filter (\<lambda>r. \<not> spec_excluded r) rows)"
    by simp
next
  assume "\<forall>r\<in>set rows. row_builds r"
  from map_rows_returns[OF this, of g] obtain ops h where "map_rows rows g = Inr (ops, h)"
    by blast
  then show "\<exists>qs h. parseGvizData (Rows rows) g = Inr (qs, h)"
    by (simp add: parseGvizData_def)
qed

theorem C8_exclusions_and_order_witness:
  "\<exists>ps g'. parseGvizData (Rows sample_rows) sample_ids = Inr (ps, g') \<and>
      map (\<lambda>p. (name p, description p, imageUrl p)) ps
        = [(''Camisa'', ''de lino'', ''http://x/c.png''), (''Gorro'', [], [])]"
proof -
  have b: "\<forall>r\<in>set sample_rows. row_builds r" by code_simp
  have f: "map row_fields (filter (\<lambda>r. \<not> spec_excluded r) sample_rows)
        = [(''Camisa'', ''de lino'', ''http://x/c.png''), (''Gorro'', [], [])]"
    by code_simp
  note t = C8_exclusions_and_order[of sample_rows sample_ids]
  from t[THEN conjunct2, THEN mp, OF b] obtain qs h where
    q: "parseGvizData (Rows sample_rows) sample_ids = Inr (qs, h)" by blast
  from C8_exclusions_and_order[of sample_rows sample_ids qs h, THEN conjunct1, THEN mp, OF q]
  have "map (\<lambda>p. (name p, description p, imageUrl p)) qs
        = [(''Camisa'', ''de lino'', ''http://x/c.png''), (''Gorro'', [], [])]"
    unfolding f .
  with q show ?thesis by (intro exI conjI)
qed

section \<open>The unit count\<close>

text \<open>
  What the code does with the quantity field: a field that does not parse gives no
  units, a non-negative value below \<open>2 ^ 32\<close> gives its floor, and a negative value
  makes \<^verbatim>\<open>Array\<close> throw.
\<close>

lemma unit_count_unparseable:
  "parseFloat s = NaN \<Longrightarrow> Array_new (Math_floor (stockQty s)) = Inr 0"
  by (simp add: stockQty_def or_zero_def Math_floor_def Array_new_def)

lemma unit_count_floor:
  assumes "parseFloat s = Finite q" "0 \<le> q" "q < 2 ^ 32"
  shows "Array_new (Math_floor (stockQty s)) = Inr (nat \<lfloor>q\<rfloor>)"
proof -
  have "of_int \<lfloor>q\<rfloor> < (2 ^ 32 :: rat)"
    using assms(3) of_int_floor_le[of q] by (rule le_less_trans[rotated])
  moreover have "(0::rat) \<le> of_int \<lfloor>q\<rfloor>" using assms(2) by simp
  ultimately show ?thesis
    using assms(1) by (simp add: stockQty_def or_zero_def Math_floor_def Array_new_def)
qed

lemma unit_count_negative:
  assumes "parseFloat s = Finite q" "q < 0"
  shows "Array_new (Math_floor (stockQty s)) = Inl (RangeError ''Invalid array length'')"
proof -
  have "of_int \<lfloor>q\<rfloor> < (0 :: rat)"
    using assms(2) of_int_floor_le[of q] by (rule le_less_trans[rotated])
  then show ?thesis
    using assms by (simp add: stockQty_def or_zero_def Math_floor_def Array_new_def)
qed

lemma negative_stock_fields:
  "2 \<le> length [Cell (Some ''7''), Cell (Some ''Camisa''), NoCell, NoCell, NoCell,
                Cell (Some ''S''), Cell (Some ''-1'')]"
  "\<not> isHeader (getVal [Cell (Some ''7''), Cell (Some ''Camisa''), NoCell, NoCell, NoCell,
                Cell (Some ''S''), Cell (Some ''-1'')] 1)"
  "getVal [Cell (Some ''7''), Cell (Some ''Camisa''), NoCell, NoCell, NoCell,
                Cell (Some ''S''), Cell (Some ''-1'')] 5 = ''S''"
  "getVal [Cell (Some ''7''), Cell (Some ''Camisa''), NoCell, NoCell, NoCell,
                Cell (Some ''S''), Cell (Some ''-1'')] 6 = ''-1''"
  by code_simp+

lemma negative_stock_floor: "Math_floor (stockQty ''-1'') = Finite (- 1)"
  by code_simp

lemma negative_stock_array:
  "Array_new (Math_floor (stockQty ''-1'')) = Inl (RangeError ''Invalid array length'')"
  by code_simp

lemma sizeList_single: "sizeList ''S'' = [''S'']"
  by code_simp

lemma negative_stock_row_throws:
  "parse_row negative_stock_row g = Inl (RangeError ''Invalid array length'')"
proof -
  have "build_sizes (stockQty ''-1'') (sizeList ''S'') g = Inl (RangeError ''Invalid array length'')"
    unfolding sizeList_single by (rule build_sizes_throws[OF negative_stock_array]) simp
  then show ?thesis
    unfolding negative_stock_row_def
    using negative_stock_fields by (intro parse_row_throws) simp_all
qed

lemma negative_shirt_fields:
  "2 \<le> length negative_shirt_cells"
  "\<not> isHeader (getVal negative_shirt_cells 1)"
  "sizeList (getVal negative_shirt_cells 5) = [''S'', ''M'', ''L'']"
  "Math_floor (stockQty (getVal negative_shirt_cells 6)) = Finite (- 4)"
  "Array_new (Math_floor (stockQty (getVal negative_shirt_cells 6)))
     = Inl (RangeError ''Invalid array length'')"
  by code_simp+

text \<open>
  Claim C1, at the failing input. The claim gives every record one bucket per size label,
  each with the unit count of the row. The row with the size field \<open>S, M/L\<close> and the
  quantity \<open>-3.7\<close> is kept and has the three labels S, M and L, but its quantity floors
  to \<open>-4\<close>, the array constructor throws a RangeError for the first bucket, and the
  row callback throws it on: no bucket is built.
\<close>

theorem C1_negative_quantity_no_buckets:
  "2 \<le> length negative_shirt_cells
   \<and> \<not> isHeader (getVal negative_shirt_cells 1)
   \<and> sizeList (getVal negative_shirt_cells 5) = [''S'', ''M'', ''L'']
   \<and> Math_floor (stockQty (getVal negative_shirt_cells 6)) = Finite (- 4)
   \<and> parse_row (Row (Some negative_shirt_cells)) g = Inl (RangeError ''Invalid array length'')"
proof -
  have "build_sizes (stockQty (getVal negative_shirt_cells 6))
          (sizeList (getVal negative_shirt_cells 5)) g
        = Inl (RangeError ''Invalid array length'')"
    unfolding negative_shirt_fields(3)
    by (rule build_sizes_throws[OF negative_shirt_fields(5)]) simp
  from parse_row_throws[OF negative_shirt_fields(1,2) this]
  show ?thesis
    by (intro conjI negative_shirt_fields(1,2,3,4))
qed

text \<open>
  Claim C2, at the failing input. The claim asks for a negative quantity to be clamped to
  zero units without an error. For the quantity \<open>-1\<close> the code floors to \<open>-1\<close>, the
  array constructor throws a RangeError, and the row callback throws it on.
\<close>

theorem C2_negative_quantity_throws:
  "Math_floor (stockQty ''-1'') = Finite (- 1)
   \<and> Array_new (Math_floor (stockQty ''-1'')) = Inl (RangeError ''Invalid array length'')
   \<and> parse_row negative_stock_row g = Inl (RangeError ''Invalid array length'')"
  using negative_stock_floor negative_stock_array negative_stock_row_throws by (intro conjI)

text \<open>
  Claim C3, at the failing inputs. The claim asks for a builder that never fails. On a
  row with a size label and the quantity \<open>-1\<close> the builder throws the RangeError, on a
  null row it throws a TypeError, and the ingestion cycle ends with that exception.
\<close>

theorem C3_builder_throws:
  "parseGvizData (Rows [negative_stock_row]) g = Inl (RangeError ''Invalid array length'')
   \<and> parseGvizData (Rows [NullRow]) g = Inl (TypeError ''Cannot read properties of null'')
   \<and> use_parsed ev st (Rows [negative_stock_row]) = (st, Some (RangeError ''Invalid array length''))"
  by (simp add: parseGvizData_def use_parsed_def negative_stock_row_throws)

section \<open>The audience category\<close>

lemma parse_row_gender:
  assumes "parse_row (Row (Some c)) g = Inr (Some p, g')"
  shows "gender p = (if getVal c 3 = [] then ''unisex'' else toLowerCase (getVal c 3))"
  using assms
  by (auto simp: Let_def toLowerCase_def split: if_splits sum.splits prod.splits)

lemma unisex_in_Gender: "''unisex'' \<in> Gender"
  by (simp add: Gender_def)

text \<open>
  Claim C9, as stated, fails: a category outside the enumeration is kept. The row with the
  category \<open>Adulto\<close> yields a product with the category \<open>adulto\<close>, which is none of
  the three values.
\<close>

theorem C9_unrecognized_gender_counterexample:
  "map_sum id fst (parse_row adult_row sample_ids) = Inr (Some adult_product)
   \<and> gender adult_product \<notin> Gender"
  by code_simp

text \<open>
  Claim C9, amended. The stored category is the lower-cased raw value, and \<open>unisex\<close>
  when the raw value is empty; it is one of the three values of the enumeration exactly
  when the raw value is empty or its lower case is one of them.
\<close>

theorem C9_gender_lowercased:
  assumes "parse_row (Row (Some c)) g = Inr (Some p, g')"
  shows "gender p = (if getVal c 3 = [] then ''unisex'' else toLowerCase (getVal c 3))
         \<and> (gender p \<in> Gender) = (getVal c 3 = [] \<or> toLowerCase (getVal c 3) \<in> Gender)"
proof -
  have g: "gender p = (if getVal c 3 = [] then ''unisex'' else toLowerCase (getVal c 3))"
    using assms by (rule parse_row_gender)
  show ?thesis
  proof (cases "getVal c 3 = []")
    case True
    with g unisex_in_Gender show ?thesis by simp
  next
    case False
    with g show ?thesis by simp
  qed
qed

theorem C9_gender_lowercased_witness:
  "map_sum id fst (parse_row (Row (Some [Cell (Some ''3''), Cell (Some ''Vestido''), NoCell,
       Cell (Some (''NI'' @ [CHR 0xD1] @ ''A'')), NoCell, NoCell, NoCell])) sample_ids)
     = Inr (Some \<lparr>product_id = ''3'', name = ''Vestido'', description = [],
                   gender = ''ni'' @ [CHR 0xF1] @ ''a'', imageUrl = [], price = Some [],
                   sizes = []\<rparr>)
   \<and> ''ni'' @ [CHR 0xF1] @ ''a'' \<in> Gender"
proof -
  let ?c = "[Cell (Some ''3''), Cell (Some ''Vestido''), NoCell,
       Cell (Some (''NI'' @ [CHR 0xD1] @ ''A'')), NoCell, NoCell, NoCell]"
  let ?p = "\<lparr>product_id = ''3'', name = ''Vestido'', description = [],
                   gender = ''ni'' @ [CHR 0xF1] @ ''a'', imageUrl = [], price = Some [],
                   sizes = []\<rparr>"
  have e: "map_sum id fst (parse_row (Row (Some ?c)) sample_ids) = Inr (Some ?p)"
    by code_simp
  then obtain g' where r: "parse_row (Row (Some ?c)) sample_ids = Inr (Some ?p, g')"
    by (cases "parse_row (Row (Some ?c)) sample_ids") auto
  have v: "getVal ?c 3 \<noteq> []" by code_simp
  have l: "toLowerCase (getVal ?c 3) = ''ni'' @ [CHR 0xF1] @ ''a''" by code_simp
  from C9_gender_lowercased[OF r, THEN conjunct2] v
  have "gender ?p \<in> Gender = (toLowerCase (getVal ?c 3) \<in> Gender)" by simp
  moreover from C9_gender_lowercased[OF r, THEN conjunct1] v l
  have "gender ?p = toLowerCase (getVal ?c 3)" by simp
  ultimately have "''ni'' @ [CHR 0xF1] @ ''a'' \<in> Gender"
    unfolding l by (simp add: Gender_def)
  with e show ?thesis by (intro conjI)
qed

section \<open>The stock update\<close>

lemma map_throwing_Inr:
  "map_throwing f xs = Inr ys \<Longrightarrow>
     length ys = length xs \<and> (\<forall>k<length xs. f (xs ! k) = Inr (ys ! k))"
proof (induction xs arbitrary: ys)
  case Nil
  then show ?case by simp
next
  case (Cons x xs)
  from Cons.prems obtain y ys' where
    a: "f x = Inr y" and b: "map_throwing f xs = Inr ys'" and c: "ys = y # ys'"
    by (auto split: sum.splits)
  from Cons.IH[OF b] a c show ?case
    by (auto simp: nth_Cons split: nat.splits)
qed

lemma map_throwing_returns:
  "\<forall>x\<in>set xs. \<exists>y. f x = Inr y \<Longrightarrow> \<exists>ys. map_throwing f xs = Inr ys"
proof (induction xs)
  case Nil
  show ?case by simp
next
  case (Cons x xs)
  then obtain y ys where "f x = Inr y" "map_throwing f xs = Inr ys" by auto
  then show ?case by simp
qed

lemma map_throwing_id:
  "\<forall>x\<in>set xs. f x = Inr x \<Longrightarrow> map_throwing f xs = Inr xs"
  by (induction xs) simp_all

lemma update_product_frame:
  assumes "update_product pid i uid ns p = Inr p'"
  shows "product_id p' = product_id p \<and> name p' = name p \<and> description p' = description p
         \<and> gender p' = gender p \<and> imageUrl p' = imageUrl p \<and> price p' = price p
         \<and> length (sizes p') = length (sizes p)
         \<and> (\<forall>j<length (sizes p).
               size_name (sizes p' ! j) = size_name (sizes p ! j)
               \<and> length (units (sizes p' ! j)) = length (units (sizes p ! j))
               \<and> (\<forall>m<length (units (sizes p ! j)).
                     unit_id (units (sizes p' ! j) ! m) = unit_id (units (sizes p ! j) ! m)
                     \<and> status (units (sizes p' ! j) ! m)
                         = (if product_id p = pid \<and> int j = i
                               \<and> unit_id (units (sizes p ! j) ! m) = uid
                            then ns else status (units (sizes p ! j) ! m))))"
proof (cases "product_id p = pid")
  case False
  with assms have "p' = p" by (simp add: update_product_def)
  with False show ?thesis by simp
next
  case True
  with assms have rng: "0 \<le> i" "i < int (length (sizes p))"
    by (auto simp: update_product_def Let_def split: if_splits)
  with assms True have p': "p' = p\<lparr>sizes := (sizes p)[nat i :=
        (sizes p ! nat i)\<lparr>units := map (\<lambda>u. if unit_id u = uid then u\<lparr>status := ns\<rparr> else u)
                                     (units (sizes p ! nat i))\<rparr>]\<rparr>"
    by (simp add: update_product_def Let_def)
  have idx: "int j = i \<longleftrightarrow> j = nat i" for j using rng by auto
  show ?thesis
    unfolding p' using True rng by (auto simp: nth_list_update idx)
qed

lemma update_product_noop:
  assumes "product_id p = pid \<longrightarrow>
             0 \<le> i \<and> i < int (length (sizes p))
             \<and> uid \<notin> unit_id ` set (units (sizes p ! nat i))"
  shows "update_product pid i uid ns p = Inr p"
proof (cases "product_id p = pid")
  case False
  then show ?thesis by (simp add: update_product_def)
next
  case True
  with assms have rng: "0 \<le> i" "i < int (length (sizes p))"
    and nu: "uid \<notin> unit_id ` set (units (sizes p ! nat i))" by auto
  have "map (\<lambda>u. if unit_id u = uid then u\<lparr>status := ns\<rparr> else u) (units (sizes p ! nat i))
          = units (sizes p ! nat i)"
    using nu by (intro map_idI) auto
  with True rng show ?thesis
    by (simp add: update_product_def Let_def)
qed

lemma updateProductStock_Inr:
  assumes "updateProductStock st pid i uid ns = Inr st'"
  shows "st' = st\<lparr>products := products st'\<rparr>
         \<and> length (products st') = length (products st)
         \<and> (\<forall>k<length (products st).
               update_product pid i uid ns (products st ! k) = Inr (products st' ! k))"
proof -
  from assms obtain ps where
    m: "map_throwing (update_product pid i uid ns) (products st) = Inr ps"
    and s: "st' = st\<lparr>products := ps\<rparr>"
    by (auto simp: updateProductStock_def split: sum.splits)
  from map_throwing_Inr[OF m] s show ?thesis by simp
qed

lemma updateProductStock_returns:
  assumes "\<forall>p\<in>set (products st). product_id p = pid \<longrightarrow>
             0 \<le> i \<and> i < int (length (sizes p))"
  shows "\<exists>st'. updateProductStock st pid i uid ns = Inr st'"
proof -
  have "\<forall>p\<in>set (products st). \<exists>p'. update_product pid i uid ns p = Inr p'"
    using assms by (auto simp: update_product_def Let_def)
  from map_throwing_returns[OF this] show ?thesis
    by (auto simp: updateProductStock_def)
qed

lemma updateProductStock_units:
  assumes r: "updateProductStock st pid i uid ns = Inr st'" and pos: "is_position st k j m"
  shows "unit_id (unit_at st' k j m) = unit_id (unit_at st k j m)
         \<and> status (unit_at st' k j m)
             = (if product_id (products st ! k) = pid \<and> int j = i
                   \<and> unit_id (unit_at st k j m) = uid
                then ns else status (unit_at st k j m))"
proof -
  from pos have k: "k < length (products st)"
    and j: "j < length (sizes (products st ! k))"
    and m: "m < length (units (sizes (products st ! k) ! j))"
    by (simp_all add: is_position_def)
  from updateProductStock_Inr[OF r] k
  have "update_product pid i uid ns (products st ! k) = Inr (products st' ! k)" by simp
  from update_product_frame[OF this] j m show ?thesis
    by (simp add: unit_at_def)
qed

text \<open>
  Claim C4, as stated, fails for the bucket index: with the index 1 on a product that has
  one bucket the update throws a TypeError instead of doing nothing.
\<close>

theorem C4_bucket_index_counterexample:
  "updateProductStock sample_store ''b'' 1 ''u4'' sold
     = Inl (TypeError ''Cannot read properties of undefined'')"
  by code_simp

text \<open>
  Claim C4, amended. The update returns the snapshot unchanged, without an error, when no
  product carries the product id, or when the bucket index lies within the size list of
  every product that carries it and no unit of that bucket carries the unit id.
\<close>

theorem C4_silent_noop:
  assumes "\<forall>p\<in>set (products st). product_id p = productId \<longrightarrow>
             0 \<le> sizeIndex \<and> sizeIndex < int (length (sizes p))
             \<and> unitId \<notin> unit_id ` set (units (sizes p ! nat sizeIndex))"
  shows "updateProductStock st productId sizeIndex unitId newStatus = Inr st"
proof -
  have "\<forall>p\<in>set (products st). update_product productId sizeIndex unitId newStatus p = Inr p"
    using assms by (auto intro!: update_product_noop)
  then have "map_throwing (update_product productId sizeIndex unitId newStatus) (products st)
               = Inr (products st)"
    by (rule map_throwing_id)
  then show ?thesis by (simp add: updateProductStock_def)
qed

theorem C4_silent_noop_witness:
  "updateProductStock sample_store ''zz'' 5 ''u1'' sold = Inr sample_store
   \<and> updateProductStock sample_store ''a'' 0 ''u9'' sold = Inr sample_store"
proof -
  have h1: "\<forall>p\<in>set (products sample_store). product_id p = ''zz'' \<longrightarrow>
             0 \<le> (5::int) \<and> 5 < int (length (sizes p))
             \<and> ''u1'' \<notin> unit_id ` set (units (sizes p ! nat 5))"
    by (simp add: sample_store_def)
  have h2: "\<forall>p\<in>set (products sample_store). product_id p = ''a'' \<longrightarrow>
             0 \<le> (0::int) \<and> 0 < int (length (sizes p))
             \<and> ''u9'' \<notin> unit_id ` set (units (sizes p ! nat 0))"
    by (simp add: sample_store_def)
  from C4_silent_noop[OF h1, of sold] C4_silent_noop[OF h2, of sold]
  show ?thesis by (intro conjI)
qed

text \<open>
  Claim C10. When the update returns, the rest of the store, the number of products, every
  field of a product other than its sizes, the number of buckets, every bucket label, the
  length of every unit sequence and every unit id are unchanged; the status of a unit
  changes only at a position whose product id, bucket index and unit id are the ones
  given, where it becomes the new status. When product ids are distinct and unit ids are
  distinct within a bucket, at most one position changes. The update returns whenever
  the bucket index lies within the size list of every product that carries the id.
\<close>

theorem C10_toggle_frame:
  "(updateProductStock st pid i uid ns = Inr st' \<longrightarrow>
      loading st' = loading st \<and> error st' = error st \<and> debugData st' = debugData st
      \<and> length (products st') = length (products st)
      \<and> (\<forall>k<length (products st).
            product_id (products st' ! k) = product_id (products st ! k)
            \<and> name (products st' ! k) = name (products st ! k)
            \<and> description (products st' ! k) = description (products st ! k)
            \<and> gender (products st' ! k) = gender (products st ! k)
            \<and> imageUrl (products st' ! k) = imageUrl (products st ! k)
            \<and> price (products st' ! k) = price (products st ! k)
            \<and> length (sizes (products st' ! k)) = length (sizes (products st ! k))
            \<and> (\<forall>j<length (sizes (products st ! k)).
                  size_name (sizes (products st' ! k) ! j) = size_name (sizes (products st ! k) ! j)
                  \<and> length (units (sizes (products st' ! k) ! j))
                      = length (units (sizes (products st ! k) ! j))))
      \<and> (\<forall>k j m. is_position st k j m \<longrightarrow>
            unit_id (unit_at st' k j m) = unit_id (unit_at st k j m)
            \<and> status (unit_at st' k j m)
                = (if product_id (products st ! k) = pid \<and> int j = i
                      \<and> unit_id (unit_at st k j m) = uid
                   then ns else status (unit_at st k j m)))
      \<and> (distinct (map product_id (products st))
          \<and> (\<forall>p\<in>set (products st). \<forall>b\<in>set (sizes p). distinct (map unit_id (units b)))
          \<longrightarrow> (\<forall>k j m k' j' m'.
                 is_position st k j m \<and> status (unit_at st' k j m) \<noteq> status (unit_at st k j m)
                 \<and> is_position st k' j' m'
                 \<and> status (unit_at st' k' j' m') \<noteq> status (unit_at st k' j' m')
                 \<longrightarrow> k = k' \<and> j = j' \<and> m = m')))
   \<and> ((\<forall>p\<in>set (products st). product_id p = pid \<longrightarrow> 0 \<le> i \<and> i < int (length (sizes p)))
        \<longrightarrow> (\<exists>st''. updateProductStock st pid i uid ns = Inr st''))"
proof (intro conjI impI)
  assume "\<forall>p\<in>set (products st). product_id p = pid \<longrightarrow> 0 \<le> i \<and> i < int (length (sizes p))"
  then show "\<exists>st''. updateProductStock st pid i uid ns = Inr st''"
    by (rule updateProductStock_returns)
next
  assume r: "updateProductStock st pid i uid ns = Inr st'"
  note s = updateProductStock_Inr[OF r]
  from s have eq: "st' = st\<lparr>products := products st'\<rparr>" by simp
  show "loading st' = loading st" by (subst eq) simp
  show "error st' = error st" by (subst eq) simp
  show "debugData st' = debugData st" by (subst eq) simp
  show "length (products st') = length (products st)" using s by simp
  show "\<forall>k<length (products st).
            product_id (products st' ! k) = product_id (products st ! k)
            \<and> name (products st' ! k) = name (products st ! k)
            \<and> description (products st' ! k) = description (products st ! k)
            \<and> gender (products st' ! k) = gender (products st ! k)
            \<and> imageUrl (products st' ! k) = imageUrl (products st ! k)
            \<and> price (products st' ! k) = price (products st ! k)
            \<and> length (sizes (products st' ! k)) = length (sizes (products st ! k))
            \<and> (\<forall>j<length (sizes (products st ! k)).
                  size_name (sizes (products st' ! k) ! j) = size_name (sizes (products st ! k) ! j)
                  \<and> length (units (sizes (products st' ! k) ! j))
                      = length (units (sizes (products st ! k) ! j)))"
  proof (intro allI impI)
    fix k assume "k < length (products st)"
    with s have "update_product pid i uid ns (products st ! k) = Inr (products st' ! k)" by simp
    from update_product_frame[OF this]
    show "product_id (products st' ! k) = product_id (products st ! k)
            \<and> name (products st' ! k) = name (products st ! k)
            \<and> description (products st' ! k) = description (products st ! k)
            \<and> gender (products st' ! k) = gender (products st ! k)
            \<and> imageUrl (products st' ! k) = imageUrl (products st ! k)
            \<and> price (products st' ! k) = price (products st ! k)
            \<and> length (sizes (products st' ! k)) = length (sizes (products st ! k))
            \<and> (\<forall>j<length (sizes (products st ! k)).
                  size_name (sizes (products st' ! k) ! j) = size_name (sizes (products st ! k) ! j)
                  \<and> length (units (sizes (products st' ! k) ! j))
                      = length (units (sizes (products st ! k) ! j)))"
      by simp
  qed
  show "\<forall>k j m. is_position st k j m \<longrightarrow>
            unit_id (unit_at st' k j m) = unit_id (unit_at st k j m)
            \<and> status (unit_at st' k j m)
                = (if product_id (products st ! k) = pid \<and> int j = i
                      \<and> unit_id (unit_at st k j m) = uid
                   then ns else status (unit_at st k j m))"
    using updateProductStock_units[OF r] by blast
next
  assume r: "updateProductStock st pid i uid ns = Inr st'"
    and d: "distinct (map product_id (products st))
          \<and> (\<forall>p\<in>set (products st). \<forall>b\<in>set (sizes p). distinct (map unit_id (units b)))"
  show "\<forall>k j m k' j' m'.
                 is_position st k j m \<and> status (unit_at st' k j m) \<noteq> status (unit_at st k j m)
                 \<and> is_position st k' j' m'
                 \<and> status (unit_at st' k' j' m') \<noteq> status (unit_at st k' j' m')
                 \<longrightarrow> k = k' \<and> j = j' \<and> m = m'"
  proof (intro allI impI)
    fix k j m k' j' m'
    assume a: "is_position st k j m \<and> status (unit_at st' k j m) \<noteq> status (unit_at st k j m)
                 \<and> is_position st k' j' m'
                 \<and> status (unit_at st' k' j' m') \<noteq> status (unit_at st k' j' m')"
    then have p1: "is_position st k j m" and p2: "is_position st k' j' m'" by simp_all
    have c1: "product_id (products st ! k) = pid \<and> int j = i \<and> unit_id (unit_at st k j m) = uid"
      using updateProductStock_units[OF r p1] a by (auto split: if_splits)
    have c2: "product_id (products st ! k') = pid \<and> int j' = i \<and> unit_id (unit_at st k' j' m') = uid"
      using updateProductStock_units[OF r p2] a by (auto split: if_splits)
    from p1 p2 have kl: "k < length (products st)" "k' < length (products st)"
      by (simp_all add: is_position_def)
    from d have d1: "distinct (map product_id (products st))"
      and d2: "\<forall>p\<in>set (products st). \<forall>b\<in>set (sizes p). distinct (map unit_id (units b))"
      by simp_all
    have "map product_id (products st) ! k = map product_id (products st) ! k'"
      using c1 c2 kl by simp
    moreover have "k < length (map product_id (products st))"
      "k' < length (map product_id (products st))" using kl by simp_all
    ultimately have k: "k = k'" using nth_eq_iff_index_eq[OF d1] by blast
    from c1 c2 have j: "j = j'" by simp
    let ?b = "sizes (products st ! k) ! j"
    from p1 have "products st ! k \<in> set (products st)" "?b \<in> set (sizes (products st ! k))"
      by (simp_all add: is_position_def)
    with d2 have db: "distinct (map unit_id (units ?b))" by blast
    from p1 p2 k j have ml: "m < length (units ?b)" "m' < length (units ?b)"
      by (simp_all add: is_position_def)
    have "map unit_id (units ?b) ! m = map unit_id (units ?b) ! m'"
      using c1 c2 ml k j by (simp add: unit_at_def)
    moreover have "m < length (map unit_id (units ?b))" "m' < length (map unit_id (units ?b))"
      using ml by simp_all
    ultimately have "m = m'" using nth_eq_iff_index_eq[OF db] by blast
    with k j show "k = k' \<and> j = j' \<and> m = m'" by simp
  qed
qed

theorem C10_toggle_frame_witness:
  "updateProductStock sample_store ''a'' 0 ''u1'' sold = Inr toggled_store
   \<and> length (products toggled_store) = length (products sample_store)
   \<and> name (products toggled_store ! 0) = name (products sample_store ! 0)
   \<and> length (sizes (products toggled_store ! 0)) = length (sizes (products sample_store ! 0))
   \<and> status (unit_at toggled_store 0 0 0)
       = (if product_id (products sample_store ! 0) = ''a'' \<and> int 0 = 0
             \<and> unit_id (unit_at sample_store 0 0 0) = ''u1''
          then sold else status (unit_at sample_store 0 0 0))
   \<and> status (unit_at toggled_store 1 0 0)
       = (if product_id (products sample_store ! 1) = ''a'' \<and> int 0 = 0
             \<and> unit_id (unit_at sample_store 1 0 0) = ''u1''
          then sold else status (unit_at sample_store 1 0 0))
   \<and> status (unit_at toggled_store 0 0 0) \<noteq> status (unit_at sample_store 0 0 0)
   \<and> status (unit_at toggled_store 0 1 0) = status (unit_at sample_store 0 1 0)
   \<and> (\<exists>st''. updateProductStock sample_store ''a'' 1 ''u3'' sold = Inr st'')"
proof -
  have r: "updateProductStock sample_store ''a'' 0 ''u1'' sold = Inr toggled_store"
    by code_simp
  note t = C10_toggle_frame[of sample_store "''a''" 0 "''u1''" sold toggled_store,
      THEN conjunct1, THEN mp, OF r]
  have len: "length (products toggled_store) = length (products sample_store)"
    using t by (elim conjE)
  have prods: "\<forall>k<length (products sample_store).
            product_id (products toggled_store ! k) = product_id (products sample_store ! k)
            \<and> name (products toggled_store ! k) = name (products sample_store ! k)
            \<and> description (products toggled_store ! k) = description (products sample_store ! k)
            \<and> gender (products toggled_store ! k) = gender (products sample_store ! k)
            \<and> imageUrl (products toggled_store ! k) = imageUrl (products sample_store ! k)
            \<and> price (products toggled_store ! k) = price (products sample_store ! k)
            \<and> length (sizes (products toggled_store ! k)) = length (sizes (products sample_store ! k))
            \<and> (\<forall>j<length (sizes (products sample_store ! k)).
                  size_name (sizes (products toggled_store ! k) ! j)
                    = size_name (sizes (products sample_store ! k) ! j)
                  \<and> length (units (sizes (products toggled_store ! k) ! j))
                      = length (units (sizes (products sample_store ! k) ! j)))"
    using t by (elim conjE)
  have units: "\<forall>k j m. is_position sample_store k j m \<longrightarrow>
            unit_id (unit_at toggled_store k j m) = unit_id (unit_at sample_store k j m)
            \<and> status (unit_at toggled_store k j m)
                = (if product_id (products sample_store ! k) = ''a'' \<and> int j = 0
                      \<and> unit_id (unit_at sample_store k j m) = ''u1''
                   then sold else status (unit_at sample_store k j m))"
    using t by (elim conjE)
  have single: "distinct (map product_id (products sample_store))
          \<and> (\<forall>p\<in>set (products sample_store). \<forall>b\<in>set (sizes p). distinct (map unit_id (units b)))
          \<longrightarrow> (\<forall>k j m k' j' m'.
                 is_position sample_store k j m
                 \<and> status (unit_at toggled_store k j m) \<noteq> status (unit_at sample_store k j m)
                 \<and> is_position sample_store k' j' m'
                 \<and> status (unit_at toggled_store k' j' m') \<noteq> status (unit_at sample_store k' j' m')
                 \<longrightarrow> k = k' \<and> j = j' \<and> m = m')"
    using t by (elim conjE)
  have k0: "0 < length (products sample_store)" by code_simp
  have p0: "is_position sample_store 0 0 0" by code_simp
  have p1: "is_position sample_store 1 0 0" by code_simp
  have p2: "is_position sample_store 0 1 0" by code_simp
  note n0 = prods[rule_format, OF k0, THEN conjunct2, THEN conjunct1]
  note l0 = prods[rule_format, OF k0, THEN conjunct2, THEN conjunct2, THEN conjunct2,
      THEN conjunct2, THEN conjunct2, THEN conjunct2, THEN conjunct1]
  note u0 = units[rule_format, OF p0, THEN conjunct2]
  note u1 = units[rule_format, OF p1, THEN conjunct2]
  have d: "distinct (map product_id (products sample_store))
          \<and> (\<forall>p\<in>set (products sample_store). \<forall>b\<in>set (sizes p). distinct (map unit_id (units b)))"
    by (simp add: sample_store_def)
  have ch: "status (unit_at toggled_store 0 0 0) \<noteq> status (unit_at sample_store 0 0 0)"
    by code_simp
  have same: "status (unit_at toggled_store 0 1 0) = status (unit_at sample_store 0 1 0)"
  proof (rule ccontr)
    assume "status (unit_at toggled_store 0 1 0) \<noteq> status (unit_at sample_store 0 1 0)"
    with single[THEN mp, OF d, rule_format, of 0 0 0 0 1 0] p0 ch p2
    show False by simp
  qed
  have h: "\<forall>p\<in>set (products sample_store). product_id p = ''a'' \<longrightarrow>
             0 \<le> (1::int) \<and> 1 < int (length (sizes p))"
    by (simp add: sample_store_def)
  note e = C10_toggle_frame[of sample_store "''a''" 1 "''u3''" sold toggled_store,
      THEN conjunct2, THEN mp, OF h]
  show ?thesis
    by (rule conjI[OF r conjI[OF len conjI[OF n0 conjI[OF l0 conjI[OF u0 conjI[OF u1
          conjI[OF ch conjI[OF same e]]]]]]]])
qed

section \<open>The ingestion cycle\<close>

lemma startsWith_iff: "startsWith s p \<longleftrightarrow> (\<exists>b. s = p @ b)"
  by (induction s p rule: startsWith.induct) auto

lemma indexOf_from_range:
  "indexOf_from i s p = - 1 \<or> (i \<le> indexOf_from i s p \<and> indexOf_from i s p \<le> i + int (length s))"
  by (induction i s p rule: indexOf_from.induct) auto

lemma indexOf_from_absent:
  "0 \<le> i \<Longrightarrow> indexOf_from i s p = - 1 \<longleftrightarrow> \<not> (\<exists>a b. s = a @ p @ b)"
proof (induction i s p rule: indexOf_from.induct)
  case (1 i p)
  then show ?case by auto
next
  case (2 i c cs p)
  show ?case
  proof (cases "startsWith (c # cs) p")
    case True
    then obtain b where "c # cs = p @ b" by (auto simp: startsWith_iff)
    then have "c # cs = [] @ p @ b" by simp
    then have "\<exists>a b. c # cs = a @ p @ b" by blast
    with True 2 show ?thesis by simp
  next
    case False
    have "(\<exists>a b. c # cs = a @ p @ b) \<longleftrightarrow> (\<exists>a b. cs = a @ p @ b)"
    proof
      assume "\<exists>a b. c # cs = a @ p @ b"
      then obtain a b where ab: "c # cs = a @ p @ b" by blast
      show "\<exists>a b. cs = a @ p @ b"
      proof (cases a)
        case Nil
        with ab False show ?thesis by (auto simp: startsWith_iff)
      next
        case (Cons x a')
        with ab have "cs = a' @ p @ b" by simp
        then show ?thesis by blast
      qed
    next
      assume "\<exists>a b. cs = a @ p @ b"
      then obtain a b where "cs = a @ p @ b" by blast
      then have "c # cs = (c # a) @ p @ b" by simp
      then show "\<exists>a b. c # cs = a @ p @ b" by blast
    qed
    with False 2 show ?thesis by simp
  qed
qed

lemma indexOf_absent: "indexOf s p = - 1 \<longleftrightarrow> \<not> (\<exists>a b. s = a @ p @ b)"
  unfolding indexOf_def by (rule indexOf_from_absent) simp

lemma indexOf_range: "indexOf s p = - 1 \<or> (0 \<le> indexOf s p \<and> indexOf s p \<le> int (length s))"
  unfolding indexOf_def using indexOf_from_range[of 0 s p] by simp

lemma lastIndexOf_from_range:
  "lastIndexOf_from i s c = - 1 \<or>
     (i \<le> lastIndexOf_from i s c \<and> lastIndexOf_from i s c < i + int (length s))"
proof (induction s arbitrary: i)
  case Nil
  show ?case by simp
next
  case (Cons x s)
  from Cons.IH[of "i + 1"] show ?case by (auto simp: Let_def)
qed

lemma lastIndexOf_range:
  "lastIndexOf s c = - 1 \<or> (0 \<le> lastIndexOf s c \<and> lastIndexOf s c < int (length s))"
  unfolding lastIndexOf_def using lastIndexOf_from_range[of 0 s c] by simp

lemma lastIndexOf_from_none:
  "0 \<le> i \<Longrightarrow> lastIndexOf_from i s c = - 1 \<longleftrightarrow> c \<notin> set s"
proof (induction s arbitrary: i)
  case Nil
  then show ?case by simp
next
  case (Cons x s)
  from Cons.IH[of "i + 1"] Cons.prems show ?case by (auto simp: Let_def)
qed

lemma lastIndexOf_from_last:
  assumes "0 \<le> i" "lastIndexOf_from i s c = l" "l \<noteq> - 1"
  shows "s ! nat (l - i) = c \<and> (\<forall>j. nat (l - i) < j \<and> j < length s \<longrightarrow> s ! j \<noteq> c)"
  using assms
proof (induction s arbitrary: i)
  case Nil
  then show ?case by simp
next
  case (Cons x s)
  show ?case
  proof (cases "lastIndexOf_from (i + 1) s c = - 1")
    case True
    with Cons.prems have xc: "x = c" and li: "l = i" by (auto simp: Let_def split: if_splits)
    from Cons.prems have "0 \<le> i + 1" by simp
    from lastIndexOf_from_none[OF this, of s c] True have "c \<notin> set s" by simp
    then have none: "\<forall>j<length s. s ! j \<noteq> c" by auto
    show ?thesis
    proof (intro conjI allI impI)
      show "(x # s) ! nat (l - i) = c" using xc li by simp
      fix j assume "nat (l - i) < j \<and> j < length (x # s)"
      then obtain j' where "j = Suc j'" "j' < length s" using li by (cases j) auto
      with none show "(x # s) ! j \<noteq> c" by simp
    qed
  next
    case False
    with Cons.prems have l: "lastIndexOf_from (i + 1) s c = l" by (simp add: Let_def)
    from Cons.prems have "0 \<le> i + 1" by simp
    from Cons.IH[OF this l Cons.prems(3)]
    have ih: "s ! nat (l - (i + 1)) = c"
      "\<forall>j. nat (l - (i + 1)) < j \<and> j < length s \<longrightarrow> s ! j \<noteq> c" by simp_all
    from lastIndexOf_from_range[of "i + 1" s c] l Cons.prems(3) have ge: "i + 1 \<le> l" by auto
    then have n: "nat (l - i) = Suc (nat (l - (i + 1)))" by simp
    show ?thesis
    proof (intro conjI allI impI)
      show "(x # s) ! nat (l - i) = c" using ih(1) n by simp
      fix j assume a: "nat (l - i) < j \<and> j < length (x # s)"
      then obtain j' where j': "j = Suc j'" by (cases j) auto
      with a n have "nat (l - (i + 1)) < j' \<and> j' < length s" by simp
      with ih(2) j' show "(x # s) ! j \<noteq> c" by simp
    qed
  qed
qed

lemma lastIndexOf_last:
  assumes "lastIndexOf s c \<noteq> - 1"
  shows "s ! nat (lastIndexOf s c) = c
         \<and> (\<forall>j. nat (lastIndexOf s c) < j \<and> j < length s \<longrightarrow> s ! j \<noteq> c)"
  using lastIndexOf_from_last[of 0 s c "lastIndexOf s c"] assms
  by (simp add: lastIndexOf_def)

lemma lastIndexOf_none: "lastIndexOf s c = - 1 \<longleftrightarrow> c \<notin> set s"
  unfolding lastIndexOf_def by (rule lastIndexOf_from_none) simp

lemma substring_ordered:
  assumes "0 \<le> a" "a \<le> b" "b \<le> int (length s)"
  shows "substring s a b = take (nat b - nat a) (drop (nat a) s)"
  using assms by (simp add: substring_def Let_def min_def max_def nat_diff_distrib)

lemma cleanJson_payload:
  assumes "indexOf jsonText marker \<noteq> - 1"
    and "indexOf jsonText marker + 39 \<le> lastIndexOf jsonText (CHR 0x29)"
  shows "cleanJson jsonText (indexOf jsonText marker) = spec_payload jsonText"
proof -
  from indexOf_range[of jsonText marker] assms(1) have "0 \<le> indexOf jsonText marker" by auto
  then have a: "0 \<le> indexOf jsonText marker + 39" by simp
  from lastIndexOf_range[of jsonText "CHR 0x29"] assms(2) a
  have b: "lastIndexOf jsonText (CHR 0x29) \<le> int (length jsonText)" by auto
  show ?thesis
    unfolding cleanJson_def spec_payload_def Let_def
    by (rule substring_ordered[OF a assms(2) b])
qed

lemma fetchSheet_cases:
  "fetchSheet ev st =
     (case snd (retrieve ev) of
        Inl e \<Rightarrow> st\<lparr>loading := False, error := Some (connection_prefix @ message e)\<rparr>
      | Inr jsonText \<Rightarrow>
          (let st1 = st\<lparr>loading := False, error := None,
                         debugData := Some (substring jsonText 0 500 @ ''...'')\<rparr>
           in if indexOf jsonText marker = - 1 then st1\<lparr>error := Some unexpected_message\<rparr>
              else (case JSON_parse ev (cleanJson jsonText (indexOf jsonText marker)) of
                      Inl e \<Rightarrow> st1\<lparr>error := Some (connection_prefix @ message e)\<rparr>
                    | Inr parsed \<Rightarrow>
                        (case parseGvizData parsed (random ev) of
                           Inl e \<Rightarrow> st1\<lparr>error := Some (connection_prefix @ message e)\<rparr>
                         | Inr (sheetProducts, g) \<Rightarrow>
                             if sheetProducts = [] then st1\<lparr>error := Some no_rows_message\<rparr>
                             else st1\<lparr>products := sheetProducts\<rparr>))))"
  by (simp add: fetchSheet_def try_body_def unwrap_def use_parsed_def Let_def
           split: sum.splits prod.splits)

lemma no_rows_message_distinct:
  "no_rows_message \<noteq> unexpected_message \<and> (\<forall>m. no_rows_message \<noteq> connection_prefix @ m)"
  by (simp add: no_rows_message_def unexpected_message_def connection_prefix_def)

lemma primary_fails_iff:
  "isl (primary ev) =
     (case fetch ev (primaryUrl ev) of
        Inl e \<Rightarrow> True
      | Inr r \<Rightarrow> \<not> ok r \<or> (case json_contents ev (body r) of
                                 Inr (Some contents) \<Rightarrow> False | _ \<Rightarrow> True))"
  by (simp add: primary_def split: sum.splits option.splits)

text \<open>
  Claim C6, as stated, fails when no closing parenthesis follows the offset:
  \<^verbatim>\<open>substring\<close> swaps its bounds. For the text \<open>)\<close> followed by the marker the
  code decodes the whole text, and for the marker alone it decodes the marker, where the
  characters between the offset and the last parenthesis are none.
\<close>

theorem C6_swapped_bounds_counterexample:
  "indexOf ('')'' @ marker) marker = 1
   \<and> lastIndexOf ('')'' @ marker) (CHR 0x29) = 0
   \<and> cleanJson ('')'' @ marker) (indexOf ('')'' @ marker) marker) = '')'' @ marker
   \<and> spec_payload ('')'' @ marker) = []
   \<and> lastIndexOf marker (CHR 0x29) = - 1
   \<and> cleanJson marker (indexOf marker marker) = marker"
  by code_simp

text \<open>
  Claim C6, amended. A text without the marker anywhere gives the format error, whatever
  the decoder would make of it. A text with the marker is decoded from the substring
  \<open>cleanJson\<close>; when its last closing parenthesis lies at or after the fixed offset
  behind the marker (39, the length of the marker, past its first occurrence), that
  substring is exactly the characters from the offset up to the last closing parenthesis.
\<close>

theorem C6_envelope:
  "(indexOf jsonText marker = - 1 \<longrightarrow>
      (\<forall>a b. jsonText \<noteq> a @ marker @ b)
      \<and> unwrap ev st jsonText
          = (st\<lparr>debugData := Some (substring jsonText 0 500 @ ''...''),
                 error := Some unexpected_message\<rparr>, None))
   \<and> (indexOf jsonText marker \<noteq> - 1 \<longrightarrow>
      (\<exists>a b. jsonText = a @ marker @ b)
      \<and> unwrap ev st jsonText
          = (case JSON_parse ev (cleanJson jsonText (indexOf jsonText marker)) of
               Inl e \<Rightarrow> (st\<lparr>debugData := Some (substring jsonText 0 500 @ ''...'')\<rparr>, Some e)
             | Inr parsed \<Rightarrow>
                 use_parsed ev (st\<lparr>debugData := Some (substring jsonText 0 500 @ ''...'')\<rparr>) parsed))
   \<and> (indexOf jsonText marker \<noteq> - 1
        \<and> indexOf jsonText marker + 39 \<le> lastIndexOf jsonText (CHR 0x29) \<longrightarrow>
      cleanJson jsonText (indexOf jsonText marker) = spec_payload jsonText
      \<and> jsonText ! nat (lastIndexOf jsonText (CHR 0x29)) = CHR 0x29
      \<and> (\<forall>j. nat (lastIndexOf jsonText (CHR 0x29)) < j \<and> j < length jsonText
               \<longrightarrow> jsonText ! j \<noteq> CHR 0x29))
   \<and> length marker = 39"
proof (intro conjI impI)
  show "length marker = 39" by (simp add: marker_def)
next
  assume a: "indexOf jsonText marker = - 1"
  then show "\<forall>a b. jsonText \<noteq> a @ marker @ b" by (simp add: indexOf_absent)
  from a show "unwrap ev st jsonText
          = (st\<lparr>debugData := Some (substring jsonText 0 500 @ ''...''),
                 error := Some unexpected_message\<rparr>, None)"
    by (simp add: unwrap_def Let_def)
next
  assume a: "indexOf jsonText marker \<noteq> - 1"
  then show "\<exists>a b. jsonText = a @ marker @ b" by (simp add: indexOf_absent)
  from a show "unwrap ev st jsonText
          = (case JSON_parse ev (cleanJson jsonText (indexOf jsonText marker)) of
               Inl e \<Rightarrow> (st\<lparr>debugData := Some (substring jsonText 0 500 @ ''...'')\<rparr>, Some e)
             | Inr parsed \<Rightarrow>
                 use_parsed ev (st\<lparr>debugData := Some (substring jsonText 0 500 @ ''...'')\<rparr>) parsed)"
    by (simp add: unwrap_def Let_def)
next
  assume a: "indexOf jsonText marker \<noteq> - 1
        \<and> indexOf jsonText marker + 39 \<le> lastIndexOf jsonText (CHR 0x29)"
  then have m: "indexOf jsonText marker \<noteq> - 1"
    and o: "indexOf jsonText marker + 39 \<le> lastIndexOf jsonText (CHR 0x29)" by simp_all
  from cleanJson_payload[OF m o]
  show "cleanJson jsonText (indexOf jsonText marker) = spec_payload jsonText" .
  from indexOf_range[of jsonText marker] m o
  have l: "lastIndexOf jsonText (CHR 0x29) \<noteq> - 1" by auto
  from lastIndexOf_last[OF l]
  show "jsonText ! nat (lastIndexOf jsonText (CHR 0x29)) = CHR 0x29"
    and "\<forall>j. nat (lastIndexOf jsonText (CHR 0x29)) < j \<and> j < length jsonText
               \<longrightarrow> jsonText ! j \<noteq> CHR 0x29"
    by simp_all
qed

theorem C6_envelope_witness:
  "indexOf sample_text marker = 8 \<and> lastIndexOf sample_text (CHR 0x29) = 49
   \<and> cleanJson sample_text (indexOf sample_text marker) = spec_payload sample_text
   \<and> spec_payload sample_text = ''{}''
   \<and> unwrap (backup_env NoRows) sample_store sample_text
      = (case JSON_parse (backup_env NoRows) (cleanJson sample_text (indexOf sample_text marker)) of
           Inl e \<Rightarrow>
             (sample_store\<lparr>debugData := Some (substring sample_text 0 500 @ ''...'')\<rparr>, Some e)
         | Inr parsed \<Rightarrow>
             use_parsed (backup_env NoRows)
               (sample_store\<lparr>debugData := Some (substring sample_text 0 500 @ ''...'')\<rparr>) parsed)
   \<and> indexOf ''{}'' marker = - 1
   \<and> unwrap offline_env sample_store ''{}''
      = (sample_store\<lparr>debugData := Some (substring ''{}'' 0 500 @ ''...''),
                      error := Some unexpected_message\<rparr>, None)"
proof -
  have i: "indexOf sample_text marker = 8" by code_simp
  have l: "lastIndexOf sample_text (CHR 0x29) = 49" by code_simp
  have m: "indexOf sample_text marker \<noteq> - 1
        \<and> indexOf sample_text marker + 39 \<le> lastIndexOf sample_text (CHR 0x29)"
    unfolding i l by simp
  have p: "spec_payload sample_text = ''{}''" by code_simp
  have n: "indexOf ''{}'' marker = - 1" by code_simp
  note t1 = C6_envelope[of sample_text offline_env sample_store,
      THEN conjunct2, THEN conjunct2, THEN conjunct1, THEN mp, OF m, THEN conjunct1]
  note t2 = C6_envelope[of "''{}''" offline_env sample_store,
      THEN conjunct1, THEN mp, OF n, THEN conjunct2]
  note t3 = C6_envelope[of sample_text "backup_env NoRows" sample_store,
      THEN conjunct2, THEN conjunct1, THEN mp, OF m[THEN conjunct1], THEN conjunct2]
  show ?thesis
    by (rule conjI[OF i conjI[OF l conjI[OF t1 conjI[OF p conjI[OF t3 conjI[OF n t2]]]]]])
qed

text \<open>
  Claim C5. A cycle that retrieves and decodes but builds no product leaves the products
  as they were and reports the no-rows message, which differs from the format message and
  from every connection message; a cycle that builds products replaces the snapshot by
  them and clears the error. The products change only to a non-empty built sequence.
\<close>

theorem C5_empty_result_keeps_snapshot:
  "(snd (retrieve ev) = Inr jsonText \<and> indexOf jsonText marker \<noteq> - 1
      \<and> JSON_parse ev (cleanJson jsonText (indexOf jsonText marker)) = Inr parsed
      \<and> parseGvizData parsed (random ev) = Inr (sheetProducts, g) \<longrightarrow>
        (sheetProducts = [] \<longrightarrow>
           products (fetchSheet ev st) = products st
           \<and> error (fetchSheet ev st) = Some no_rows_message)
        \<and> (sheetProducts \<noteq> [] \<longrightarrow>
           products (fetchSheet ev st) = sheetProducts \<and> error (fetchSheet ev st) = None))
   \<and> (products (fetchSheet ev st) = products st
       \<or> (products (fetchSheet ev st) \<noteq> []
           \<and> (\<exists>jsonText parsed g.
                 snd (retrieve ev) = Inr jsonText \<and> indexOf jsonText marker \<noteq> - 1
                 \<and> JSON_parse ev (cleanJson jsonText (indexOf jsonText marker)) = Inr parsed
                 \<and> parseGvizData parsed (random ev) = Inr (products (fetchSheet ev st), g))))
   \<and> no_rows_message \<noteq> unexpected_message
   \<and> (\<forall>m. no_rows_message \<noteq> connection_prefix @ m)"
proof (intro conjI)
  show "snd (retrieve ev) = Inr jsonText \<and> indexOf jsonText marker \<noteq> - 1
      \<and> JSON_parse ev (cleanJson jsonText (indexOf jsonText marker)) = Inr parsed
      \<and> parseGvizData parsed (random ev) = Inr (sheetProducts, g) \<longrightarrow>
        (sheetProducts = [] \<longrightarrow>
           products (fetchSheet ev st) = products st
           \<and> error (fetchSheet ev st) = Some no_rows_message)
        \<and> (sheetProducts \<noteq> [] \<longrightarrow>
           products (fetchSheet ev st) = sheetProducts \<and> error (fetchSheet ev st) = None)"
    by (simp add: fetchSheet_cases Let_def)
  show "products (fetchSheet ev st) = products st
       \<or> (products (fetchSheet ev st) \<noteq> []
           \<and> (\<exists>jsonText parsed g.
                 snd (retrieve ev) = Inr jsonText \<and> indexOf jsonText marker \<noteq> - 1
                 \<and> JSON_parse ev (cleanJson jsonText (indexOf jsonText marker)) = Inr parsed
                 \<and> parseGvizData parsed (random ev) = Inr (products (fetchSheet ev st), g)))"
    by (auto simp: fetchSheet_cases Let_def split: sum.splits prod.splits)
  show "no_rows_message \<noteq> unexpected_message"
    using no_rows_message_distinct by (rule conjunct1)
  show "\<forall>m. no_rows_message \<noteq> connection_prefix @ m"
    using no_rows_message_distinct by (rule conjunct2)
qed

theorem C5_empty_result_keeps_snapshot_witness:
  "products (fetchSheet (backup_env NoRows) sample_store) = products sample_store
   \<and> error (fetchSheet (backup_env NoRows) sample_store) = Some no_rows_message
   \<and> products (fetchSheet (backup_env (Rows sample_rows)) sample_store)
       = fst (projr (parseGvizData (Rows sample_rows) sample_ids))
   \<and> error (fetchSheet (backup_env (Rows sample_rows)) sample_store) = None
   \<and> map name (products (fetchSheet (backup_env (Rows sample_rows)) sample_store))
       = [''Camisa'', ''Gorro'']"
proof -
  have r: "snd (retrieve (backup_env p)) = Inr sample_text" for p
    by (simp add: retrieve_def primary_def backup_def backup_env_def primaryUrl_def backupUrl_def
          noCacheUrl_def)
  have m: "indexOf sample_text marker \<noteq> - 1" by code_simp
  have c: "cleanJson sample_text (indexOf sample_text marker) = ''{}''" by code_simp
  have j: "JSON_parse (backup_env p) (cleanJson sample_text (indexOf sample_text marker)) = Inr p"
    for p unfolding c by (simp add: backup_env_def)
  have g: "random (backup_env p) = sample_ids" for p by (simp add: backup_env_def)
  have e: "parseGvizData NoRows (random (backup_env NoRows)) = Inr ([], random (backup_env NoRows))"
    by (simp add: parseGvizData_def)
  obtain ps h where ps: "parseGvizData (Rows sample_rows) sample_ids = Inr (ps, h)"
    and names: "map name ps = [''Camisa'', ''Gorro'']"
  proof -
    have "map_sum id (map name \<circ> fst) (parseGvizData (Rows sample_rows) sample_ids)
            = Inr [''Camisa'', ''Gorro'']"
      by code_simp
    then show ?thesis
      by (cases "parseGvizData (Rows sample_rows) sample_ids") (auto intro: that)
  qed
  have ne: "ps \<noteq> []" using names by auto
  note t1 = C5_empty_result_keeps_snapshot[of "backup_env NoRows" sample_text NoRows "[]"
      "random (backup_env NoRows)" sample_store, THEN conjunct1, THEN mp,
      OF conjI[OF r conjI[OF m conjI[OF j e]]], THEN conjunct1, THEN mp, OF refl]
  note t2 = C5_empty_result_keeps_snapshot[of "backup_env (Rows sample_rows)" sample_text
      "Rows sample_rows" ps h sample_store, THEN conjunct1, THEN mp,
      OF conjI[OF r conjI[OF m conjI[OF j ps[folded g[of "Rows sample_rows"]]]]],
      THEN conjunct2, THEN mp, OF ne]
  from t2 ps have p2: "products (fetchSheet (backup_env (Rows sample_rows)) sample_store)
       = fst (projr (parseGvizData (Rows sample_rows) sample_ids))" by simp
  from t2 names have n2: "map name (products (fetchSheet (backup_env (Rows sample_rows)) sample_store))
       = [''Camisa'', ''Gorro'']" by simp
  show ?thesis
    by (rule conjI[OF t1[THEN conjunct1] conjI[OF t1[THEN conjunct2]
          conjI[OF p2 conjI[OF t2[THEN conjunct2] n2]]]])
qed

text \<open>
  Claim C7. Both strategies wrap the same feed URL, each with its own time stamp. The
  first fails on an exception of the request, a failure status, an exception of the
  decoder or a missing payload field; then the second is requested. The retrieval throws
  only when both fail, and then it throws the one connection message, whatever the two
  exceptions were; the cycle shows it and keeps the products. Each strategy is what the
  request for its own URL answers: the first gives the payload field of the answer to
  the request for \<open>primaryUrl\<close>, the second the body of the answer to the request for
  \<open>backupUrl\<close>, and it fails exactly on an exception or a failure status of that request.
\<close>

theorem C7_retrieval_fallback:
  "primaryUrl ev = ''https://api.allorigins.win/get?url=''
                     @ encodeURIComponent ev (gvizUrl @ ''&_='' @ getTime ev 0)
   \<and> backupUrl ev = ''https://corsproxy.io/?''
                     @ encodeURIComponent ev (gvizUrl @ ''&_='' @ getTime ev 1)
   \<and> isl (primary ev) =
        (case fetch ev (primaryUrl ev) of
           Inl e \<Rightarrow> True
         | Inr r \<Rightarrow> \<not> ok r \<or> (case json_contents ev (body r) of
                                    Inr (Some contents) \<Rightarrow> False | _ \<Rightarrow> True))
   \<and> (\<forall>jsonText. primary ev = Inr jsonText \<longrightarrow> retrieve ev = ([primaryUrl ev], Inr jsonText))
   \<and> (isl (primary ev) \<longrightarrow>
        fst (retrieve ev) = [primaryUrl ev, backupUrl ev]
        \<and> snd (retrieve ev)
            = (case backup ev of
                 Inr jsonText \<Rightarrow> Inr jsonText
               | Inl err2 \<Rightarrow> Inl (Error connect_message)))
   \<and> isl (snd (retrieve ev)) = (isl (primary ev) \<and> isl (backup ev))
   \<and> (\<forall>e. snd (retrieve ev) = Inl e \<longrightarrow> e = Error connect_message)
   \<and> (isl (primary ev) \<and> isl (backup ev) \<longrightarrow>
        error (fetchSheet ev st) = Some (connection_prefix @ connect_message)
        \<and> products (fetchSheet ev st) = products st)
   \<and> backup ev =
        (case fetch ev (backupUrl ev) of
           Inl e \<Rightarrow> Inl e
         | Inr r \<Rightarrow> if ok r then Inr (body r) else Inl (Error ''CorsProxy Error''))
   \<and> isl (backup ev) =
        (case fetch ev (backupUrl ev) of Inl e \<Rightarrow> True | Inr r \<Rightarrow> \<not> ok r)
   \<and> primary ev =
        (case fetch ev (primaryUrl ev) of
           Inl e \<Rightarrow> Inl e
         | Inr r \<Rightarrow>
             if ok r
             then (case json_contents ev (body r) of
                     Inl e \<Rightarrow> Inl e
                   | Inr None \<Rightarrow> Inl (Error ''No content'')
                   | Inr (Some contents) \<Rightarrow> Inr contents)
             else Inl (Error ''AllOrigins Error''))"
proof (intro conjI)
  show "backup ev =
        (case fetch ev (backupUrl ev) of
           Inl e \<Rightarrow> Inl e
         | Inr r \<Rightarrow> if ok r then Inr (body r) else Inl (Error ''CorsProxy Error''))"
    by (simp add: backup_def split: sum.splits)
  show "isl (backup ev) =
        (case fetch ev (backupUrl ev) of Inl e \<Rightarrow> True | Inr r \<Rightarrow> \<not> ok r)"
    by (simp add: backup_def split: sum.splits)
  show "primary ev =
        (case fetch ev (primaryUrl ev) of
           Inl e \<Rightarrow> Inl e
         | Inr r \<Rightarrow>
             if ok r
             then (case json_contents ev (body r) of
                     Inl e \<Rightarrow> Inl e
                   | Inr None \<Rightarrow> Inl (Error ''No content'')
                   | Inr (Some contents) \<Rightarrow> Inr contents)
             else Inl (Error ''AllOrigins Error''))"
    by (simp add: primary_def split: sum.splits)
  show "primaryUrl ev = ''https://api.allorigins.win/get?url=''
                     @ encodeURIComponent ev (gvizUrl @ ''&_='' @ getTime ev 0)"
    by (simp only: primaryUrl_def noCacheUrl_def)
  show "backupUrl ev = ''https://corsproxy.io/?''
                     @ encodeURIComponent ev (gvizUrl @ ''&_='' @ getTime ev 1)"
    by (simp only: backupUrl_def noCacheUrl_def)
  show "isl (primary ev) =
        (case fetch ev (primaryUrl ev) of
           Inl e \<Rightarrow> True
         | Inr r \<Rightarrow> \<not> ok r \<or> (case json_contents ev (body r) of
                                    Inr (Some contents) \<Rightarrow> False | _ \<Rightarrow> True))"
    by (rule primary_fails_iff)
  show "\<forall>jsonText. primary ev = Inr jsonText \<longrightarrow> retrieve ev = ([primaryUrl ev], Inr jsonText)"
    by (simp add: retrieve_def)
  show "isl (primary ev) \<longrightarrow>
        fst (retrieve ev) = [primaryUrl ev, backupUrl ev]
        \<and> snd (retrieve ev)
            = (case backup ev of
                 Inr jsonText \<Rightarrow> Inr jsonText
               | Inl err2 \<Rightarrow> Inl (Error connect_message))"
    by (auto simp: retrieve_def split: sum.splits)
  show "isl (snd (retrieve ev)) = (isl (primary ev) \<and> isl (backup ev))"
    by (auto simp: retrieve_def split: sum.splits)
  show "\<forall>e. snd (retrieve ev) = Inl e \<longrightarrow> e = Error connect_message"
    by (auto simp: retrieve_def split: sum.splits)
  show "isl (primary ev) \<and> isl (backup ev) \<longrightarrow>
        error (fetchSheet ev st) = Some (connection_prefix @ connect_message)
        \<and> products (fetchSheet ev st) = products st"
    by (auto simp: fetchSheet_cases retrieve_def split: sum.splits)
qed

theorem C7_retrieval_fallback_witness:
  "primary primary_env = Inr sample_text
   \<and> retrieve primary_env = ([primaryUrl primary_env], Inr sample_text)
   \<and> isl (primary (backup_env NoRows))
   \<and> fst (retrieve (backup_env NoRows))
       = [''https://api.allorigins.win/get?url='' @ gvizUrl @ ''&_=1700000000000'',
          ''https://corsproxy.io/?'' @ gvizUrl @ ''&_=1700000000250'']
   \<and> snd (retrieve (backup_env NoRows))
       = (case backup (backup_env NoRows) of
            Inr jsonText \<Rightarrow> Inr jsonText
          | Inl err2 \<Rightarrow> Inl (Error connect_message))
   \<and> fetch (backup_env NoRows) (backupUrl (backup_env NoRows))
       = Inr \<lparr>ok = True, body = sample_text\<rparr>
   \<and> fetch (backup_env NoRows) ''https://corsproxy.io/?'' = Inr \<lparr>ok = False, body = []\<rparr>
   \<and> backup (backup_env NoRows) = Inr sample_text
   \<and> isl (primary offline_env) \<and> isl (backup offline_env)
   \<and> snd (retrieve offline_env) = Inl (Error connect_message)
   \<and> error (fetchSheet offline_env sample_store) = Some (connection_prefix @ connect_message)
   \<and> products (fetchSheet offline_env sample_store) = products sample_store"
proof -
  note q = C7_retrieval_fallback[of primary_env sample_store]
  note t = C7_retrieval_fallback[of "backup_env NoRows" sample_store]
  note s = C7_retrieval_fallback[of offline_env sample_store]
  note rest = conjunct2[THEN conjunct2, THEN conjunct2, THEN conjunct2, THEN conjunct2,
      THEN conjunct2, THEN conjunct2, THEN conjunct2]
  have fp: "fetch primary_env (primaryUrl primary_env) = Inr \<lparr>ok = True, body = ''{contents}''\<rparr>"
    by (simp add: primary_env_def primaryUrl_def noCacheUrl_def)
  have jp: "json_contents primary_env ''{contents}'' = Inr (Some sample_text)"
    by (simp add: primary_env_def)
  have p0: "primary primary_env = Inr sample_text"
    by (subst q[THEN rest, THEN conjunct2, THEN conjunct2]) (simp add: fp jp)
  have f1: "fetch (backup_env NoRows) (primaryUrl (backup_env NoRows))
              = Inr \<lparr>ok = False, body = []\<rparr>"
    by (simp add: backup_env_def primaryUrl_def noCacheUrl_def)
  have p1: "isl (primary (backup_env NoRows))"
    by (subst t[THEN conjunct2, THEN conjunct2, THEN conjunct1]) (simp add: f1)
  have fb: "fetch (backup_env NoRows) (backupUrl (backup_env NoRows))
              = Inr \<lparr>ok = True, body = sample_text\<rparr>"
    by (simp add: backup_env_def backupUrl_def noCacheUrl_def)
  have bare: "fetch (backup_env NoRows) ''https://corsproxy.io/?'' = Inr \<lparr>ok = False, body = []\<rparr>"
    by (simp add: backup_env_def gvizUrl_def)
  have b1: "backup (backup_env NoRows) = Inr sample_text"
    by (subst t[THEN rest, THEN conjunct1]) (simp add: fb)
  have fo: "fetch offline_env url = Inl (TypeError ''Failed to fetch'')" for url
    by (simp add: offline_env_def)
  have p2: "isl (primary offline_env)"
    by (subst s[THEN conjunct2, THEN conjunct2, THEN conjunct1]) (simp add: fo)
  have b2: "isl (backup offline_env)"
    by (subst s[THEN rest, THEN conjunct2, THEN conjunct1]) (simp add: fo)
  have u: "[primaryUrl (backup_env NoRows), backupUrl (backup_env NoRows)]
       = [''https://api.allorigins.win/get?url='' @ gvizUrl @ ''&_=1700000000000'',
          ''https://corsproxy.io/?'' @ gvizUrl @ ''&_=1700000000250'']"
    by (simp add: primaryUrl_def backupUrl_def noCacheUrl_def backup_env_def)
  note q4 = q[THEN conjunct2, THEN conjunct2, THEN conjunct2, THEN conjunct1,
      THEN spec, THEN mp, OF p0]
  note t5 = t[THEN conjunct2, THEN conjunct2, THEN conjunct2, THEN conjunct2, THEN conjunct1,
      THEN mp, OF p1]
  note s6 = s[THEN conjunct2, THEN conjunct2, THEN conjunct2, THEN conjunct2, THEN conjunct2,
      THEN conjunct1]
  note s7 = s[THEN conjunct2, THEN conjunct2, THEN conjunct2, THEN conjunct2, THEN conjunct2,
      THEN conjunct2, THEN conjunct1]
  note s8 = s[THEN conjunct2, THEN conjunct2, THEN conjunct2, THEN conjunct2, THEN conjunct2,
      THEN conjunct2, THEN conjunct2, THEN conjunct1, THEN mp, OF conjI[OF p2 b2]]
  from s6 p2 b2 have "isl (snd (retrieve offline_env))" by simp
  then obtain e where e: "snd (retrieve offline_env) = Inl e"
    by (cases "snd (retrieve offline_env)") simp_all
  from s7[THEN spec, THEN mp, OF e] e
  have r: "snd (retrieve offline_env) = Inl (Error connect_message)" by simp
  show ?thesis
    by (rule conjI[OF p0 conjI[OF q4 conjI[OF p1 conjI[OF t5[THEN conjunct1, unfolded u]
          conjI[OF t5[THEN conjunct2] conjI[OF fb conjI[OF bare conjI[OF b1 conjI[OF p2
          conjI[OF b2 conjI[OF r s8]]]]]]]]]]])
qed

end
